theory Spec2Isabelle
  imports Main
begin

section \<open>Python string primitives used by the formatter\<close>

text \<open>
  A Python \<open>str\<close> is modelled as a \<open>string\<close> whose characters are code points:
  \<open>CHR 0xE7\<close> is the one character U+00E7, so \<open>length\<close> counts what Python's
  \<open>len\<close> counts. The model covers the code points below 256.
\<close>

definition digit_char :: "nat \<Rightarrow> char" where
  "digit_char d = ''0123456789'' ! d"

text \<open>\<open>str(n)\<close> for a non-negative integer: its decimal digits, most significant first.\<close>

fun str_nat :: "nat \<Rightarrow> string" where
  "str_nat n = (if n < 10 then [digit_char n] else str_nat (n div 10) @ [digit_char (n mod 10)])"

declare str_nat.simps [simp del]

definition py_str_int :: "int \<Rightarrow> string" where
  "py_str_int i = (if i < 0 then CHR ''-'' # str_nat (nat (- i)) else str_nat (nat i))"

text \<open>
  \<open>s.zfill(width)\<close>: \<open>s\<close> itself when it is already \<open>width\<close> long, otherwise zeros are
  added on the left, after a leading sign if there is one.
\<close>

definition zfill :: "nat \<Rightarrow> string \<Rightarrow> string" where
  "zfill width s =
     (if width \<le> length s then s
      else (case s of
              [] \<Rightarrow> replicate width CHR ''0''
            | c # r \<Rightarrow>
                if c = CHR ''+'' \<or> c = CHR ''-''
                then c # replicate (width - length s) CHR ''0'' @ r
                else replicate (width - length s) CHR ''0'' @ s))"

section \<open>DataFormatter: opening hours\<close>

text \<open>
  The \<open>open\<close> and \<open>close\<close> dictionaries of a period as the places API sends them; a key
  that is missing is \<open>None\<close>.
\<close>

record time_point =
  tp_day :: "int option"
  tp_hour :: "int option"
  tp_minute :: "int option"

record period =
  p_open :: "time_point option"
  p_close :: "time_point option"

record period_entry =
  restaurant_id :: nat
  day_of_the_week :: "string option"
  opens_at :: "string option"
  closes_at :: "string option"
  is_opened :: bool

definition empty_dict :: time_point where
  "empty_dict = \<lparr>tp_day = None, tp_hour = None, tp_minute = None\<rparr>"

text \<open>\<open>d.get(key, default)\<close> on an optional field.\<close>

definition get_or :: "'a option \<Rightarrow> 'a \<Rightarrow> 'a" where
  "get_or v dflt = (case v of None \<Rightarrow> dflt | Some x \<Rightarrow> x)"

definition format_day_name :: "int \<Rightarrow> string option" where
  "format_day_name day_number =
     map_of [(0, ''Domingo''),
             (1, ''Segunda-feira''),
             (2, ''Ter'' @ [CHR 0xE7] @ ''a-feira''),
             (3, ''Quarta-feira''),
             (4, ''Quinta-feira''),
             (5, ''Sexta-feira''),
             (6, ''S'' @ [CHR 0xE1] @ ''bado'')] day_number"

text \<open>\<open>f'{str(hour).zfill(2)}:{str(minute).zfill(2)}'\<close> with both keys defaulting to 0.\<close>

definition format_time :: "time_point \<Rightarrow> string" where
  "format_time t =
     zfill 2 (py_str_int (get_or (tp_hour t) 0)) @ '':'' @ zfill 2 (py_str_int (get_or (tp_minute t) 0))"

definition open_entry :: "nat \<Rightarrow> period \<Rightarrow> period_entry" where
  "open_entry rid p =
     (let open_data = get_or (p_open p) empty_dict;
          day_of_week = get_or (tp_day open_data) 0;
          close_data = get_or (p_close p) empty_dict
      in \<lparr>restaurant_id = rid,
          day_of_the_week = format_day_name day_of_week,
          opens_at = Some (format_time open_data),
          closes_at = Some (format_time close_data),
          is_opened = True\<rparr>)"

definition closed_day_entry :: "nat \<Rightarrow> int \<Rightarrow> period_entry" where
  "closed_day_entry rid day_of_week =
     \<lparr>restaurant_id = rid,
      day_of_the_week = format_day_name day_of_week,
      opens_at = None,
      closes_at = None,
      is_opened = False\<rparr>"

text \<open>
  The days collected in \<open>opened_days\<close>: those of the periods whose \<open>open\<close> dictionary is
  non-empty and has a \<open>day\<close>.
\<close>

fun opened_days :: "period list \<Rightarrow> int list" where
  "opened_days [] = []"
| "opened_days (p # ps) =
     (case p_open p of
        None \<Rightarrow> opened_days ps
      | Some od \<Rightarrow>
          (case tp_day od of
             None \<Rightarrow> opened_days ps
           | Some d \<Rightarrow> if od \<noteq> empty_dict then d # opened_days ps else opened_days ps))"

definition format_opening_hours_periods :: "period list option \<Rightarrow> nat \<Rightarrow> period_entry list" where
  "format_opening_hours_periods opening_hours_periods rid =
     (case opening_hours_periods of
        None \<Rightarrow> []
      | Some [] \<Rightarrow> []
      | Some ps \<Rightarrow>
          map (open_entry rid) ps
          @ map (closed_day_entry rid) (filter (\<lambda>d. d \<notin> set (opened_days ps)) [0..6]))"

subsection \<open>The weekly schedule in the specification's words\<close>

text \<open>The day an open entry is filed under: the \<open>day\<close> key of \<open>open\<close>, 0 when it is missing.\<close>

definition period_day :: "period \<Rightarrow> int" where
  "period_day p = get_or (tp_day (get_or (p_open p) empty_dict)) 0"

definition in_range :: "int option \<Rightarrow> int \<Rightarrow> bool" where
  "in_range v hi = (case v of None \<Rightarrow> True | Some x \<Rightarrow> 0 \<le> x \<and> x < hi)"

definition valid_time :: "time_point \<Rightarrow> bool" where
  "valid_time t \<longleftrightarrow> in_range (tp_hour t) 24 \<and> in_range (tp_minute t) 60"

definition valid_period :: "period \<Rightarrow> bool" where
  "valid_period p \<longleftrightarrow>
     (case p_open p of
        None \<Rightarrow> False
      | Some od \<Rightarrow> (case tp_day od of None \<Rightarrow> False | Some d \<Rightarrow> 0 \<le> d \<and> d \<le> 6) \<and> valid_time od)
     \<and> (case p_close p of None \<Rightarrow> True | Some cd \<Rightarrow> valid_time cd)"

definition two_digits :: "int \<Rightarrow> string" where
  "two_digits n = [digit_char (nat n div 10), digit_char (nat n mod 10)]"

definition hhmm :: "time_point \<Rightarrow> string" where
  "hhmm t = two_digits (get_or (tp_hour t) 0) @ '':'' @ two_digits (get_or (tp_minute t) 0)"

definition spec_open_entry :: "nat \<Rightarrow> period \<Rightarrow> period_entry" where
  "spec_open_entry rid p =
     \<lparr>restaurant_id = rid,
      day_of_the_week = format_day_name (period_day p),
      opens_at = Some (hhmm (get_or (p_open p) empty_dict)),
      closes_at = Some (hhmm (get_or (p_close p) empty_dict)),
      is_opened = True\<rparr>"

text \<open>Periods for Monday, Wednesday and Friday only.\<close>

definition mk_period :: "int \<Rightarrow> int \<Rightarrow> int \<Rightarrow> int \<Rightarrow> int \<Rightarrow> period" where
  "mk_period d h m h' m' =
     \<lparr>p_open = Some \<lparr>tp_day = Some d, tp_hour = Some h, tp_minute = Some m\<rparr>,
      p_close = Some \<lparr>tp_day = Some d, tp_hour = Some h', tp_minute = Some m'\<rparr>\<rparr>"

definition example_periods :: "period list" where
  "example_periods = [mk_period 1 9 0 18 30, mk_period 3 9 0 18 30, mk_period 5 11 5 23 0]"

section \<open>Python string methods used by the address parser\<close>

text \<open>
  Errors are values: every operation of the source that can raise returns a sum, with the
  exception on the left.
\<close>

datatype py_error =
    IndexError
  | KeyError
  | NoSuchGroup
  | MissingAddress
  | SyntaxError
  | RequestError
  | DatabaseError

text \<open>The characters for which \<open>str.isspace\<close> holds (and that \<open>\s\<close> matches).\<close>

definition whitespace_chars :: "char list" where
  "whitespace_chars =
     [CHR 0x09, CHR 0x0A, CHR 0x0B, CHR 0x0C, CHR 0x0D, CHR 0x1C, CHR 0x1D, CHR 0x1E, CHR 0x1F,
      CHR 0x20, CHR 0x85, CHR 0xA0]"

definition py_isspace :: "char \<Rightarrow> bool" where
  "py_isspace c \<longleftrightarrow> c \<in> set whitespace_chars"

text \<open>\<open>s.strip(chars)\<close> and \<open>s.strip()\<close>.\<close>

definition py_strip_chars :: "(char \<Rightarrow> bool) \<Rightarrow> string \<Rightarrow> string" where
  "py_strip_chars P s = rev (dropWhile P (rev (dropWhile P s)))"

definition py_strip :: "string \<Rightarrow> string" where
  "py_strip s = py_strip_chars py_isspace s"

text \<open>\<open>s.split()\<close>: the maximal runs of characters that are not whitespace.\<close>

fun split_ws :: "string \<Rightarrow> string \<Rightarrow> string list" where
  "split_ws cur [] = (if cur = [] then [] else [cur])"
| "split_ws cur (c # cs) =
     (if py_isspace c then (if cur = [] then split_ws [] cs else cur # split_ws [] cs)
      else split_ws (cur @ [c]) cs)"

definition py_split :: "string \<Rightarrow> string list" where
  "py_split s = split_ws [] s"

text \<open>\<open>s.split(sep)\<close> for a separator of one character: empty pieces are kept.\<close>

fun split_on :: "char \<Rightarrow> string \<Rightarrow> string \<Rightarrow> string list" where
  "split_on sep cur [] = [cur]"
| "split_on sep cur (c # cs) =
     (if c = sep then cur # split_on sep [] cs else split_on sep (cur @ [c]) cs)"

definition py_split_on :: "char \<Rightarrow> string \<Rightarrow> string list" where
  "py_split_on sep s = split_on sep [] s"

text \<open>\<open>sep.join(xs)\<close>.\<close>

fun py_join :: "string \<Rightarrow> string list \<Rightarrow> string" where
  "py_join sep [] = []"
| "py_join sep [x] = x"
| "py_join sep (x # y # ys) = x @ sep @ py_join sep (y # ys)"

text \<open>\<open>s.startswith(t)\<close>.\<close>

definition startswith :: "string \<Rightarrow> string \<Rightarrow> bool" where
  "startswith s t \<longleftrightarrow> take (length t) s = t"

text \<open>
  \<open>s.replace(old, new)\<close>: every occurrence of \<open>old\<close>, left to right, without overlap.
  The counter is the number of characters of a replaced occurrence still to skip.
\<close>

fun replace_aux :: "string \<Rightarrow> string \<Rightarrow> nat \<Rightarrow> string \<Rightarrow> string" where
  "replace_aux old new skip [] = []"
| "replace_aux old new (Suc k) (c # cs) = replace_aux old new k cs"
| "replace_aux old new 0 (c # cs) =
     (if take (length old) (c # cs) = old
      then new @ replace_aux old new (length old - 1) cs
      else c # replace_aux old new 0 cs)"

definition py_replace :: "string \<Rightarrow> string \<Rightarrow> string \<Rightarrow> string" where
  "py_replace old new s =
     (if old = [] then new @ concat (map (\<lambda>c. c # new) s) else replace_aux old new 0 s)"

text \<open>\<open>s.rfind(sub)\<close>: the highest index where \<open>sub\<close> starts, or \<open>-1\<close>.\<close>

definition py_rfind :: "string \<Rightarrow> string \<Rightarrow> int" where
  "py_rfind s sub =
     (case filter (\<lambda>i. take (length sub) (drop i s) = sub \<and> i + length sub \<le> length s)
             (rev [0..<Suc (length s)]) of
        [] \<Rightarrow> - 1
      | i # _ \<Rightarrow> int i)"

text \<open>Slice bounds: a negative bound counts from the end, and both are clamped.\<close>

definition slice_bound :: "nat \<Rightarrow> int \<Rightarrow> nat" where
  "slice_bound n i = (if i < 0 then nat (max 0 (int n + i)) else min (nat i) n)"

definition slice_from :: "'a list \<Rightarrow> int \<Rightarrow> 'a list" where
  "slice_from xs i = drop (slice_bound (length xs) i) xs"

definition slice_to :: "'a list \<Rightarrow> int \<Rightarrow> 'a list" where
  "slice_to xs i = take (slice_bound (length xs) i) xs"

text \<open>
  \<open>xs[i]\<close> and \<open>xs[i] = v\<close>. An index from 0 up to the length addresses from the
  front, one from \<open>-1\<close> down to minus the length from the back; any other raises.
\<close>

definition resolve_index :: "nat \<Rightarrow> int \<Rightarrow> nat option" where
  "resolve_index len i =
     (if 0 \<le> i \<and> i < int len then Some (nat i)
      else if i < 0 \<and> - int len \<le> i then Some (nat (int len + i))
      else None)"

definition py_index :: "'a list \<Rightarrow> int \<Rightarrow> py_error + 'a" where
  "py_index xs i =
     (case resolve_index (length xs) i of None \<Rightarrow> Inl IndexError | Some k \<Rightarrow> Inr (xs ! k))"

definition py_setitem :: "'a list \<Rightarrow> int \<Rightarrow> 'a \<Rightarrow> py_error + 'a list" where
  "py_setitem xs i v =
     (case resolve_index (length xs) i of None \<Rightarrow> Inl IndexError | Some k \<Rightarrow> Inr (xs[k := v]))"

section \<open>Regular expressions as Python's \<open>re\<close> matches them\<close>

text \<open>
  The patterns of the source are kept as data and run by a backtracking matcher that
  lists the ways a pattern can match from a position, in the order \<open>re\<close> tries them:
  the first element is the match \<open>re\<close> reports.
\<close>

datatype cset = CChar char | CRange char char | CSpace | CDigit

datatype regex =
    Eps
  | Lit char
  | Cls "cset list"
  | NCls "cset list"
  | Dot
  | Bol
  | Eol
  | WordB
  | Seq regex regex
  | Alt regex regex
  | Star regex
  | Opt regex
  | Group nat regex

definition is_digit :: "char \<Rightarrow> bool" where
  "is_digit c \<longleftrightarrow> c \<in> set ''0123456789''"

text \<open>The characters \<open>\w\<close> matches: letters, digits and the underscore.\<close>

definition is_word :: "char \<Rightarrow> bool" where
  "is_word c \<longleftrightarrow>
     (let n = (of_char c :: nat)
      in (48 \<le> n \<and> n \<le> 57) \<or> (65 \<le> n \<and> n \<le> 90) \<or> n = 95 \<or> (97 \<le> n \<and> n \<le> 122)
         \<or> n = 170 \<or> n = 178 \<or> n = 179 \<or> n = 181 \<or> n = 185 \<or> n = 186
         \<or> (188 \<le> n \<and> n \<le> 190) \<or> (192 \<le> n \<and> n \<le> 214) \<or> (216 \<le> n \<and> n \<le> 246)
         \<or> 248 \<le> n)"

fun in_cset :: "char \<Rightarrow> cset \<Rightarrow> bool" where
  "in_cset c (CChar d) \<longleftrightarrow> c = d"
| "in_cset c (CRange lo hi) \<longleftrightarrow> (of_char lo :: nat) \<le> of_char c \<and> (of_char c :: nat) \<le> of_char hi"
| "in_cset c CSpace \<longleftrightarrow> py_isspace c"
| "in_cset c CDigit \<longleftrightarrow> is_digit c"

text \<open>A position in the subject and the groups captured so far, the latest first.\<close>

type_synonym mstate = "nat \<times> (nat \<times> nat \<times> nat) list"

definition step_char :: "(char \<Rightarrow> bool) \<Rightarrow> string \<Rightarrow> mstate \<Rightarrow> mstate list" where
  "step_char P s st =
     (if fst st < length s \<and> P (s ! fst st) then [(Suc (fst st), snd st)] else [])"

definition at_word_boundary :: "string \<Rightarrow> nat \<Rightarrow> bool" where
  "at_word_boundary s i \<longleftrightarrow>
     (0 < i \<and> is_word (s ! (i - 1))) \<noteq> (i < length s \<and> is_word (s ! i))"

definition at_end :: "string \<Rightarrow> nat \<Rightarrow> bool" where
  "at_end s i \<longleftrightarrow> i = length s \<or> (Suc i = length s \<and> s ! i = CHR 0x0A)"

text \<open>
  A greedy repetition: one more round of the body first, then stopping here. A round that
  consumes nothing ends the repetition. Every round consumes a character, so as many
  rounds as characters are left is enough.
\<close>

primrec star_from :: "nat \<Rightarrow> (mstate \<Rightarrow> mstate list) \<Rightarrow> mstate \<Rightarrow> mstate list" where
  "star_from 0 body st = [st]"
| "star_from (Suc rounds) body st =
     concat (map (star_from rounds body) (filter (\<lambda>st'. fst st < fst st') (body st))) @ [st]"

primrec rmatch :: "regex \<Rightarrow> string \<Rightarrow> mstate \<Rightarrow> mstate list" where
  "rmatch Eps s st = [st]"
| "rmatch (Lit c) s st = step_char (\<lambda>d. d = c) s st"
| "rmatch (Cls cs) s st = step_char (\<lambda>d. \<exists>x \<in> set cs. in_cset d x) s st"
| "rmatch (NCls cs) s st = step_char (\<lambda>d. \<not> (\<exists>x \<in> set cs. in_cset d x)) s st"
| "rmatch Dot s st = step_char (\<lambda>d. d \<noteq> CHR 0x0A) s st"
| "rmatch Bol s st = (if fst st = 0 then [st] else [])"
| "rmatch Eol s st = (if at_end s (fst st) then [st] else [])"
| "rmatch WordB s st = (if at_word_boundary s (fst st) then [st] else [])"
| "rmatch (Seq a b) s st = concat (map (rmatch b s) (rmatch a s st))"
| "rmatch (Alt a b) s st = rmatch a s st @ rmatch b s st"
| "rmatch (Star a) s st = star_from (length s - fst st) (rmatch a s) st"
| "rmatch (Opt a) s st = rmatch a s st @ [st]"
| "rmatch (Group n a) s st =
     map (\<lambda>st'. (fst st', (n, fst st, fst st') # snd st')) (rmatch a s st)"

text \<open>\<open>a b c ...\<close>, \<open>a+\<close> and \<open>a{n}\<close>.\<close>

definition seq :: "regex list \<Rightarrow> regex" where
  "seq rs = foldr Seq rs Eps"

definition plus :: "regex \<Rightarrow> regex" where
  "plus a = Seq a (Star a)"

definition times :: "nat \<Rightarrow> regex \<Rightarrow> regex" where
  "times n a = seq (replicate n a)"

text \<open>A match object: where the match starts and ends, and its groups.\<close>

record match =
  m_start :: nat
  m_end :: nat
  m_groups :: "(nat \<times> nat \<times> nat) list"

text \<open>
  The first start position, among those given, at which the pattern matches. With
  \<open>must_advance\<close> a match at the first position has to be non-empty (the rule of
  \<open>re.sub\<close> after an empty match).
\<close>

fun first_match :: "regex \<Rightarrow> string \<Rightarrow> bool \<Rightarrow> nat list \<Rightarrow> match option" where
  "first_match r s must_advance [] = None"
| "first_match r s must_advance (i # rest) =
     (case filter (\<lambda>st. if must_advance then i < fst st else True) (rmatch r s (i, [])) of
        [] \<Rightarrow> first_match r s False rest
      | st # _ \<Rightarrow> Some \<lparr>m_start = i, m_end = fst st, m_groups = snd st\<rparr>)"

definition re_search :: "regex \<Rightarrow> string \<Rightarrow> match option" where
  "re_search r s = first_match r s False [0..<Suc (length s)]"

definition re_match :: "regex \<Rightarrow> string \<Rightarrow> match option" where
  "re_match r s = first_match r s False [0]"

text \<open>\<open>m.group(0)\<close> and \<open>m.group(n)\<close>; a group that took no part in the match is an error.\<close>

definition group0 :: "string \<Rightarrow> match \<Rightarrow> string" where
  "group0 s m = take (m_end m - m_start m) (drop (m_start m) s)"

definition group :: "string \<Rightarrow> match \<Rightarrow> nat \<Rightarrow> py_error + string" where
  "group s m n =
     (case map_of (m_groups m) n of
        None \<Rightarrow> Inl NoSuchGroup
      | Some (i, j) \<Rightarrow> Inr (take (j - i) (drop i s)))"

text \<open>
  \<open>re.sub(pattern, repl, s)\<close>: the matches found from left to right are replaced. After
  an empty match the search resumes at the same place and must advance. Two rounds per
  character are enough.
\<close>

fun sub_from :: "nat \<Rightarrow> regex \<Rightarrow> string \<Rightarrow> string \<Rightarrow> nat \<Rightarrow> bool \<Rightarrow> string" where
  "sub_from 0 r repl s pos must_advance = drop pos s"
| "sub_from (Suc rounds) r repl s pos must_advance =
     (case first_match r s must_advance [pos..<Suc (length s)] of
        None \<Rightarrow> drop pos s
      | Some m \<Rightarrow>
          take (m_start m - pos) (drop pos s) @ repl
          @ sub_from rounds r repl s (m_end m) (m_end m = m_start m))"

definition re_sub :: "regex \<Rightarrow> string \<Rightarrow> string \<Rightarrow> string" where
  "re_sub r repl s = sub_from (2 * length s + 2) r repl s 0 False"

text \<open>A group that every match of the pattern goes through.\<close>

primrec has_group :: "nat \<Rightarrow> regex \<Rightarrow> bool" where
  "has_group n Eps \<longleftrightarrow> False"
| "has_group n (Lit c) \<longleftrightarrow> False"
| "has_group n (Cls cs) \<longleftrightarrow> False"
| "has_group n (NCls cs) \<longleftrightarrow> False"
| "has_group n Dot \<longleftrightarrow> False"
| "has_group n Bol \<longleftrightarrow> False"
| "has_group n Eol \<longleftrightarrow> False"
| "has_group n WordB \<longleftrightarrow> False"
| "has_group n (Seq a b) \<longleftrightarrow> has_group n a \<or> has_group n b"
| "has_group n (Alt a b) \<longleftrightarrow> has_group n a \<and> has_group n b"
| "has_group n (Star a) \<longleftrightarrow> False"
| "has_group n (Opt a) \<longleftrightarrow> False"
| "has_group n (Group m a) \<longleftrightarrow> n = m \<or> has_group n a"

text \<open>The numbers of the groups captured in a matcher state.\<close>

definition keys :: "mstate \<Rightarrow> nat set" where
  "keys st = fst ` set (snd st)"

section \<open>DataFormatter.parse_street_name\<close>

record address_dict =
  street_type :: "string option"
  street_name :: "string option"
  street_number :: "string option"
  street_complement :: "string option"
  street_neighborhood :: "string option"
  postalcode :: "string option"
  city :: "string option"
  state :: "string option"
  country :: "string option"

definition empty_address :: address_dict where
  "empty_address =
     \<lparr>street_type = None, street_name = None, street_number = None, street_complement = None,
      street_neighborhood = None, postalcode = None, city = None, state = None, country = None\<rparr>"

subsection \<open>The patterns\<close>

definition spaces :: regex where
  "spaces = Star (Cls [CSpace])"

definition digits1 :: regex where
  "digits1 = plus (Cls [CDigit])"

definition letter_opt :: regex where
  "letter_opt = Opt (Cls [CRange CHR ''A'' CHR ''Z'', CRange CHR ''a'' CHR ''z''])"

text \<open>\<^verbatim>\<open>,\s*([^,]+)$\<close>\<close>

definition country_re :: regex where
  "country_re = seq [Lit CHR '','', spaces, Group 1 (plus (NCls [CChar CHR '',''])), Eol]"

text \<open>\<^verbatim>\<open>\b(\d{5}-?\d{3})\b\<close>\<close>

definition postalcode_re :: regex where
  "postalcode_re =
     seq [WordB,
          Group 1 (seq [times 5 (Cls [CDigit]), Opt (Lit CHR ''-''), times 3 (Cls [CDigit])]),
          WordB]"

text \<open>\<^verbatim>\<open>-\s*([A-Z]{2})\s*,?\s*$\<close>\<close>

definition state_re :: regex where
  "state_re =
     seq [Lit CHR ''-'', spaces, Group 1 (times 2 (Cls [CRange CHR ''A'' CHR ''Z''])), spaces,
          Opt (Lit CHR '',''), spaces, Eol]"

text \<open>\<^verbatim>\<open>^\s*-\s*\<close>\<close>

definition leading_dash_re :: regex where
  "leading_dash_re = seq [Bol, spaces, Lit CHR ''-'', spaces]"

text \<open>\<^verbatim>\<open>^\d+[A-Za-z]?$\<close>\<close>

definition number_re :: regex where
  "number_re = seq [Bol, digits1, letter_opt, Eol]"

text \<open>\<^verbatim>\<open>^(\d+[A-Za-z]?)\s*-\s*(.+)$\<close>\<close>

definition number_dash_re :: regex where
  "number_dash_re =
     seq [Bol, Group 1 (seq [digits1, letter_opt]), spaces, Lit CHR ''-'', spaces,
          Group 2 (plus Dot), Eol]"

text \<open>\<^verbatim>\<open>^(\d+[A-Za-z]?)\s+(.+)$\<close>\<close>

definition number_space_re :: regex where
  "number_space_re =
     seq [Bol, Group 1 (seq [digits1, letter_opt]), plus (Cls [CSpace]), Group 2 (plus Dot), Eol]"

text \<open>\<^verbatim>\<open>^\s*-\s*|\s*-\s*$\<close>\<close>

definition edge_dash_re :: regex where
  "edge_dash_re =
     Alt (seq [Bol, spaces, Lit CHR ''-'', spaces]) (seq [spaces, Lit CHR ''-'', spaces, Eol])"

definition street_types :: "string list" where
  "street_types =
     [''Avenida'', ''Rua'', ''Alameda'', ''Travessa'', ''Pra'' @ [CHR 0xE7] @ ''a'',
      ''Rodovia'', ''Estrada'', ''Viela'', ''Largo'', ''Beco'',
      ''Av.'', ''Al.'', ''R.'', ''Tv.'', ''P'' @ [CHR 0xE7] @ ''.'']"

subsection \<open>The steps, right to left and then left to right\<close>

text \<open>Each step returns the fields it found and what is left of the address.\<close>

definition extract_country :: "string \<Rightarrow> py_error + (string option \<times> string)" where
  "extract_country address =
     (case re_search country_re address of
        None \<Rightarrow> Inr (None, address)
      | Some country_match \<Rightarrow>
          (case group address country_match 1 of
             Inl e \<Rightarrow> Inl e
           | Inr g \<Rightarrow> Inr (Some (py_strip g), py_strip (take (m_start country_match) address))))"

definition extract_postalcode :: "string \<Rightarrow> py_error + (string option \<times> string)" where
  "extract_postalcode address =
     (case re_search postalcode_re address of
        None \<Rightarrow> Inr (None, address)
      | Some postalcode_match \<Rightarrow>
          (case group address postalcode_match 1 of
             Inl e \<Rightarrow> Inl e
           | Inr g \<Rightarrow>
               Inr (Some (py_replace ''-'' '''' g),
                    py_strip_chars (\<lambda>c. c \<in> set '' ,'')
                      (py_replace (group0 address postalcode_match) '''' address))))"

definition extract_state :: "string \<Rightarrow> py_error + (string option \<times> string)" where
  "extract_state address =
     (case re_search state_re address of
        None \<Rightarrow> Inr (None, address)
      | Some state_match \<Rightarrow>
          (case group address state_match 1 of
             Inl e \<Rightarrow> Inl e
           | Inr g \<Rightarrow> Inr (Some g, py_strip (take (m_start state_match) address))))"

definition extract_city :: "string \<Rightarrow> py_error + (string option \<times> string)" where
  "extract_city address =
     (if address \<noteq> [] then
        (let parts_temp = py_split_on CHR '','' address in
         if length parts_temp > 0 then
           (case py_index parts_temp (- 1) of
              Inl e \<Rightarrow> Inl e
            | Inr l \<Rightarrow> Inr (Some (py_strip l), py_strip (py_join '','' (slice_to parts_temp (- 1)))))
         else Inr (None, address))
      else Inr (None, address))"

text \<open>The loop over \<open>street_types\<close>, left at the first type the segment starts with.\<close>

fun match_street_type :: "string list \<Rightarrow> string \<Rightarrow> string option \<times> string" where
  "match_street_type [] first_part = (None, first_part)"
| "match_street_type (st_type # rest) first_part =
     (if startswith first_part st_type
      then (Some st_type, py_strip (slice_from first_part (int (length st_type))))
      else match_street_type rest first_part)"

text \<open>The street number, from the segment after the street name.\<close>

definition extract_number :: "string list \<Rightarrow> py_error + (string option \<times> string list)" where
  "extract_number parts =
     (if length parts \<ge> 1 then
        (case py_index parts 0 of
           Inl e \<Rightarrow> Inl e
         | Inr p0 \<Rightarrow>
             (let potential_number = py_strip (re_sub leading_dash_re '''' (py_strip p0)) in
              if re_match number_re potential_number \<noteq> None
              then Inr (Some potential_number, slice_from parts 1)
              else
                (case re_match number_dash_re potential_number of
                   Some number_match \<Rightarrow>
                     (case group potential_number number_match 1 of
                        Inl e \<Rightarrow> Inl e
                      | Inr g1 \<Rightarrow>
                          (case group potential_number number_match 2 of
                             Inl e \<Rightarrow> Inl e
                           | Inr g2 \<Rightarrow>
                               (case py_setitem parts 0 g2 of
                                  Inl e \<Rightarrow> Inl e
                                | Inr parts' \<Rightarrow> Inr (Some g1, parts'))))
                 | None \<Rightarrow>
                     (case re_match number_space_re potential_number of
                        Some number_match \<Rightarrow>
                          (case group potential_number number_match 1 of
                             Inl e \<Rightarrow> Inl e
                           | Inr g1 \<Rightarrow>
                               (case group potential_number number_match 2 of
                                  Inl e \<Rightarrow> Inl e
                                | Inr g2 \<Rightarrow>
                                    (case py_setitem parts 0 g2 of
                                       Inl e \<Rightarrow> Inl e
                                     | Inr parts' \<Rightarrow> Inr (Some g1, parts'))))
                      | None \<Rightarrow> Inr (None, parts)))))
      else Inr (None, parts))"

text \<open>The complement: the segments left over, dashes trimmed, empty ones dropped.\<close>

definition join_complement :: "string list \<Rightarrow> string option" where
  "join_complement parts =
     (if length parts > 0 then
        (let complement_parts =
               filter (\<lambda>part. part \<noteq> [])
                 (map (\<lambda>part. py_strip (re_sub edge_dash_re '''' part)) parts)
         in if complement_parts \<noteq> [] then Some (py_join '' - '' complement_parts) else None)
      else None)"

text \<open>The neighbourhood (last segment, after its last \<open>" - "\<close>) and the complement.\<close>

definition extract_neighborhood ::
    "string list \<Rightarrow> py_error + (string option \<times> string option)" where
  "extract_neighborhood parts =
     (if length parts > 0 then
        (case py_index parts (- 1) of
           Inl e \<Rightarrow> Inl e
         | Inr l \<Rightarrow>
             (let last_part = py_strip (re_sub leading_dash_re '''' (py_strip l));
                  last_dash = py_rfind last_part '' - ''
              in if last_dash \<noteq> - 1 then
                   (let before_dash = py_strip (slice_to last_part last_dash) in
                    if before_dash \<noteq> [] then
                      (case py_setitem parts (- 1) before_dash of
                         Inl e \<Rightarrow> Inl e
                       | Inr parts' \<Rightarrow>
                           Inr (Some (py_strip (slice_from last_part (last_dash + 3))),
                                join_complement parts'))
                    else
                      Inr (Some (py_strip (slice_from last_part (last_dash + 3))),
                           join_complement (slice_to parts (- 1))))
                 else Inr (Some last_part, join_complement (slice_to parts (- 1)))))
      else Inr (None, None))"

text \<open>
  What is left after the city: street type and name, number, complements, neighbourhood.
\<close>

definition parse_street_part :: "address_dict \<Rightarrow> string \<Rightarrow> py_error + address_dict" where
  "parse_street_part result address =
     (if address = [] then Inr result
      else
        (let parts = map py_strip (filter (\<lambda>p. py_strip p \<noteq> [])
                       (py_split_on CHR '','' address))
         in if length parts = 0 then Inr result
            else
              (case py_index parts 0 of
                 Inl e \<Rightarrow> Inl e
               | Inr first_part \<Rightarrow>
                   (case match_street_type street_types first_part of
                      (st, first_part') \<Rightarrow>
                        (case extract_number (slice_from parts 1) of
                           Inl e \<Rightarrow> Inl e
                         | Inr (num, parts') \<Rightarrow>
                             (case extract_neighborhood parts' of
                                Inl e \<Rightarrow> Inl e
                              | Inr (nb, compl) \<Rightarrow>
                                  Inr (result\<lparr>street_type := st,
                                             street_name := Some (py_strip first_part'),
                                             street_number := num,
                                             street_neighborhood := nb,
                                             street_complement := compl\<rparr>)))))))"

definition parse_street_name :: "string option \<Rightarrow> py_error + address_dict" where
  "parse_street_name address_opt =
     (case address_opt of
        None \<Rightarrow> Inr empty_address
      | Some raw \<Rightarrow>
          if raw = [] then Inr empty_address
          else
            (let address = py_join '' '' (py_split raw) in
             case extract_country address of
               Inl e \<Rightarrow> Inl e
             | Inr (co, address1) \<Rightarrow>
                 (case extract_postalcode address1 of
                    Inl e \<Rightarrow> Inl e
                  | Inr (pc, address2) \<Rightarrow>
                      (case extract_state address2 of
                         Inl e \<Rightarrow> Inl e
                       | Inr (st, address3) \<Rightarrow>
                           (case extract_city address3 of
                              Inl e \<Rightarrow> Inl e
                            | Inr (ci, address4) \<Rightarrow>
                                parse_street_part
                                  (empty_address\<lparr>country := co, postalcode := pc,
                                                  state := st, city := ci\<rparr>)
                                  address4)))))"

text \<open>The well-formed address of the specification's example.\<close>

definition augusta :: string where
  "augusta =
     ''Rua Augusta, 123 - Consola'' @ [CHR 0xE7, CHR 0xE3] @ ''o, S'' @ [CHR 0xE3]
       @ ''o Paulo - SP, 01305-000, Brasil''"

section \<open>The places API client\<close>

text \<open>
  An HTTP call either raises (\<open>requests\<close> found no server, timed out, ...) or answers
  with a status code and a JSON body.
\<close>

datatype 'a response = Raised | Response nat 'a

text \<open>
  The detail record (\<open>google_fields_data\<close>), one field for each key of the field mask; a
  missing key is \<open>None\<close>. A number is carried as the text \<open>str\<close> gives for it, which is
  all the code ever asks of a number. \<open>displayName\<close>, \<open>primaryTypeDisplayName\<close> and
  \<open>editorialSummary\<close> are dictionaries whose \<open>text\<close> key may itself be missing.
\<close>

record location_dict =
  loc_latitude :: "string option"
  loc_longitude :: "string option"

record opening_hours_dict =
  periods :: "period list option"
  weekdayDescriptions :: "string list option"

record place_details =
  displayName :: "string option option"
  formattedAddress :: "string option"
  location :: "location_dict option"
  googleMapsUri :: "string option"
  types :: "string list option"
  primaryTypeDisplayName :: "string option option"
  websiteUri :: "string option"
  regularOpeningHours :: "opening_hours_dict option"
  businessStatus :: "string option"
  editorialSummary :: "string option option"
  priceLevel :: "string option"
  rating :: "string option"
  servesVegetarianFood :: "bool option"

text \<open>The empty dictionary \<open>{}\<close>, the one detail record that is falsy.\<close>

definition empty_details :: place_details where
  "empty_details =
     \<lparr>displayName = None, formattedAddress = None, location = None, googleMapsUri = None,
      types = None, primaryTypeDisplayName = None, websiteUri = None,
      regularOpeningHours = None, businessStatus = None, editorialSummary = None,
      priceLevel = None, rating = None, servesVegetarianFood = None\<rparr>"

text \<open>The body of a text search: the \<open>id\<close> of each place found, under the key \<open>places\<close>.\<close>

type_synonym search_body = "string option list option"

record api =
  search_text :: "string \<Rightarrow> search_body response"
  place_get :: "string \<Rightarrow> place_details response"

definition get_place_id :: "api \<Rightarrow> string \<Rightarrow> py_error + string option" where
  "get_place_id client restaurant_name =
     (case search_text client (restaurant_name @ '' in Brazil'') of
        Raised \<Rightarrow> Inl RequestError
      | Response status_code response_data \<Rightarrow>
          if status_code = 200 then
            (case response_data of
               None \<Rightarrow> Inl KeyError
             | Some places \<Rightarrow>
                 (case py_index places 0 of Inl e \<Rightarrow> Inl e | Inr google_id \<Rightarrow> Inr google_id))
          else Inr None)"

definition get_place_details ::
    "api \<Rightarrow> string \<Rightarrow> py_error + (string option \<times> place_details option)" where
  "get_place_details client restaurant_name =
     (case get_place_id client restaurant_name of
        Inl e \<Rightarrow> Inl e
      | Inr None \<Rightarrow> Inr (None, None)
      | Inr (Some google_id) \<Rightarrow>
          if google_id = [] then Inr (None, None)
          else
            (case place_get client google_id of
               Raised \<Rightarrow> Inl RequestError
             | Response status_code body \<Rightarrow>
                 if status_code = 200 then Inr (Some google_id, Some body)
                 else Inr (Some google_id, None)))"

section \<open>The enriched record\<close>

text \<open>The parameters of the restaurant upsert: the parsed address and the copied fields.\<close>

record restaurant_params = address_dict +
  google_id :: string
  google_name :: string
  google_display_name :: "string option"
  business_status :: "string option"
  editorial_summary :: "string option"
  google_url :: "string option"
  latitude :: "string option"
  longitude :: "string option"
  ratings :: "string option"
  vegetarian_food :: bool
  website :: "string option"
  opening_hours_description :: "string option"

text \<open>\<open>str(x)\<close> of a number that may be \<open>None\<close>.\<close>

definition py_str :: "string option \<Rightarrow> string" where
  "py_str x = (case x of None \<Rightarrow> ''None'' | Some t \<Rightarrow> t)"

text \<open>\<open>d.get(key, {}).get("text", None)\<close>.\<close>

definition get_text :: "string option option \<Rightarrow> string option" where
  "get_text d = (case d of None \<Rightarrow> None | Some t \<Rightarrow> t)"

text \<open>
  The description lines joined by newlines, then every newline turned into a comma and a
  space. The thin space the source removes first, U+2009, is not among the modelled code
  points.
\<close>

definition format_opening_hours_description :: "string list option \<Rightarrow> string option" where
  "format_opening_hours_description description_lines =
     (case description_lines of
        None \<Rightarrow> None
      | Some [] \<Rightarrow> None
      | Some ls \<Rightarrow> Some (py_replace [CHR 0x0A] '', '' (py_join [CHR 0x0A] ls)))"

text \<open>The dictionary \<open>restaurant_params\<close>; \<open>google_fields_data["location"]\<close> raises when missing.\<close>

definition build_restaurant_params ::
    "string \<Rightarrow> string \<Rightarrow> place_details \<Rightarrow> address_dict \<Rightarrow> py_error + restaurant_params" where
  "build_restaurant_params gid restaurant_name google_fields_data street_parsed =
     (case location google_fields_data of
        None \<Rightarrow> Inl KeyError
      | Some loc \<Rightarrow>
          Inr \<lparr>street_type = street_type street_parsed,
               street_name = street_name street_parsed,
               street_number = street_number street_parsed,
               street_complement = street_complement street_parsed,
               street_neighborhood = street_neighborhood street_parsed,
               postalcode = postalcode street_parsed,
               city = city street_parsed,
               state = state street_parsed,
               country = country street_parsed,
               google_id = gid,
               google_name = restaurant_name,
               google_display_name = get_text (displayName google_fields_data),
               business_status = businessStatus google_fields_data,
               editorial_summary = get_text (editorialSummary google_fields_data),
               google_url = googleMapsUri google_fields_data,
               latitude = Some (py_str (loc_latitude loc)),
               longitude = Some (py_str (loc_longitude loc)),
               ratings = (case rating google_fields_data of
                            None \<Rightarrow> None
                          | Some r \<Rightarrow> Some (py_str (Some r))),
               vegetarian_food = get_or (servesVegetarianFood google_fields_data) False,
               website = websiteUri google_fields_data,
               opening_hours_description =
                 format_opening_hours_description
                   (case regularOpeningHours google_fields_data of
                      None \<Rightarrow> None
                    | Some oh \<Rightarrow> weekdayDescriptions oh)\<rparr>)"

section \<open>Storage\<close>

text \<open>
  The three tables and the quota table, as lists of rows. A row of \<open>opening_hours\<close> is the
  entry the formatter made.
\<close>

record restaurant_row =
  row_id :: nat
  row_params :: restaurant_params
  row_updated_at :: nat

record type_row =
  type_restaurant_id :: nat
  restaurant_type :: string
  is_primary_type :: bool

record quota_row =
  quota_month_year :: string
  api_service :: string
  quota_limit :: nat
  quota_used :: nat

record database =
  restaurants :: "restaurant_row list"
  opening_hours :: "period_entry list"
  restaurant_types :: "type_row list"
  google_api_quota :: "quota_row list"

text \<open>
  A connection: what is committed, what the open transaction sees, and the sequence that
  numbers new restaurants (a sequence is not rolled back).
\<close>

record connection =
  committed :: database
  working :: database
  id_seq :: nat

datatype statement =
    UpsertRestaurant restaurant_params
  | InsertOpeningHours period_entry
  | InsertRestaurantType type_row
  | SelectQuota string string
  | UpdateQuota string string
  | InsertQuota quota_row
  | SelectNotStored "string list"
  | Commit

text \<open>
  What lies outside the program: the API, the clock, and which statements the storage
  refuses (a constraint of its schema, a lost connection) in a given state.
\<close>

record environment =
  client :: api
  storage_rejects :: "database \<Rightarrow> statement \<Rightarrow> bool"
  clock :: nat
  month_year :: string

type_synonym 'a action = "connection \<Rightarrow> (py_error + 'a) \<times> connection"

text \<open>Sequencing: an exception ends the sequence, with the connection as it was then.\<close>

definition and_then :: "'a action \<Rightarrow> ('a \<Rightarrow> 'b action) \<Rightarrow> 'b action" where
  "and_then m f c = (case m c of (Inl e, c') \<Rightarrow> (Inl e, c') | (Inr a, c') \<Rightarrow> f a c')"

text \<open>\<open>cursor.execute\<close> of a statement that changes rows.\<close>

definition execute :: "environment \<Rightarrow> statement \<Rightarrow> (database \<Rightarrow> database) \<Rightarrow> unit action" where
  "execute env stmt effect c =
     (if storage_rejects env (working c) stmt then (Inl DatabaseError, c)
      else (Inr (), c\<lparr>working := effect (working c)\<rparr>))"

definition commit :: "environment \<Rightarrow> unit action" where
  "commit env c =
     (if storage_rejects env (working c) Commit then (Inl DatabaseError, c)
      else (Inr (), c\<lparr>committed := working c\<rparr>))"

definition rollback :: "connection \<Rightarrow> connection" where
  "rollback c = c\<lparr>working := committed c\<rparr>"

subsection \<open>add_quota_counter\<close>

definition quota_limits_standard :: "string \<Rightarrow> nat option" where
  "quota_limits_standard = map_of [(''essential'', 10000), (''pro'', 5000), (''enterprise'', 1000)]"

definition quota_matches :: "string \<Rightarrow> string \<Rightarrow> quota_row \<Rightarrow> bool" where
  "quota_matches my service q \<longleftrightarrow> quota_month_year q = my \<and> api_service q = service"

fun quota_loop :: "environment \<Rightarrow> string list \<Rightarrow> unit action" where
  "quota_loop env [] c = (Inr (), c)"
| "quota_loop env (service # rest) c =
     (if storage_rejects env (working c) (SelectQuota (month_year env) service)
      then (Inl DatabaseError, c)
      else if filter (quota_matches (month_year env) service) (google_api_quota (working c)) \<noteq> []
      then and_then
             (execute env (UpdateQuota (month_year env) service)
                (\<lambda>db. db\<lparr>google_api_quota :=
                     map (\<lambda>q. if quota_matches (month_year env) service q
                               then q\<lparr>quota_used := quota_used q + 1\<rparr> else q)
                       (google_api_quota db)\<rparr>))
             (\<lambda>_. quota_loop env rest) c
      else
        (case quota_limits_standard service of
           None \<Rightarrow> quota_loop env rest c
         | Some limit \<Rightarrow>
             (let q = \<lparr>quota_month_year = month_year env, api_service = service,
                       quota_limit = limit, quota_used = 1\<rparr>
              in and_then
                   (execute env (InsertQuota q)
                      (\<lambda>db. db\<lparr>google_api_quota := google_api_quota db @ [q]\<rparr>))
                   (\<lambda>_. quota_loop env rest) c)))"

definition add_quota_counter :: "environment \<Rightarrow> string list option \<Rightarrow> unit action" where
  "add_quota_counter env api_services =
     and_then
       (quota_loop env
          (case api_services of None \<Rightarrow> [''pro'', ''essential'', ''enterprise''] | Some l \<Rightarrow> l))
       (\<lambda>_. commit env)"

subsection \<open>RestaurantDataProcessor\<close>

text \<open>
  The upsert keyed by \<open>google_id\<close>: a stored row with that key gets every column and the
  timestamp overwritten and keeps its id; otherwise a row is added under the next id.
\<close>

definition upsert_restaurant :: "environment \<Rightarrow> restaurant_params \<Rightarrow> nat action" where
  "upsert_restaurant env p c =
     (if storage_rejects env (working c) (UpsertRestaurant p) then (Inl DatabaseError, c)
      else
        (case filter (\<lambda>r. google_id (row_params r) = google_id p) (restaurants (working c)) of
           r # _ \<Rightarrow>
             (Inr (row_id r),
              c\<lparr>working := (working c)\<lparr>restaurants :=
                   map (\<lambda>r'. if google_id (row_params r') = google_id p
                              then r'\<lparr>row_params := p, row_updated_at := clock env\<rparr> else r')
                     (restaurants (working c))\<rparr>\<rparr>)
         | [] \<Rightarrow>
             (Inr (id_seq c),
              c\<lparr>working := (working c)\<lparr>restaurants :=
                   restaurants (working c)
                   @ [\<lparr>row_id = id_seq c, row_params = p, row_updated_at = clock env\<rparr>]\<rparr>,
                id_seq := Suc (id_seq c)\<rparr>)))"

definition insert_restaurant ::
    "environment \<Rightarrow> string \<Rightarrow> string \<Rightarrow> place_details \<Rightarrow> address_dict \<Rightarrow> nat action" where
  "insert_restaurant env gid restaurant_name google_fields_data street_parsed c =
     (case build_restaurant_params gid restaurant_name google_fields_data street_parsed of
        Inl e \<Rightarrow> (Inl e, c)
      | Inr restaurant_params \<Rightarrow> upsert_restaurant env restaurant_params c)"

fun insert_periods :: "environment \<Rightarrow> period_entry list \<Rightarrow> unit action" where
  "insert_periods env [] c = (Inr (), c)"
| "insert_periods env (period_entry # rest) c =
     and_then
       (execute env (InsertOpeningHours period_entry)
          (\<lambda>db. db\<lparr>opening_hours := opening_hours db @ [period_entry]\<rparr>))
       (\<lambda>_. insert_periods env rest) c"

definition insert_opening_hours :: "environment \<Rightarrow> place_details \<Rightarrow> nat \<Rightarrow> unit action" where
  "insert_opening_hours env google_fields_data rid c =
     (let opening_hours_periods =
            (case regularOpeningHours google_fields_data of None \<Rightarrow> None | Some oh \<Rightarrow> periods oh)
      in case opening_hours_periods of
           None \<Rightarrow> (Inr (), c)
         | Some [] \<Rightarrow> (Inr (), c)
         | Some ps \<Rightarrow> insert_periods env (format_opening_hours_periods (Some ps) rid) c)"

text \<open>An insert with \<open>ON CONFLICT (restaurant_id, restaurant_type) DO NOTHING\<close>.\<close>

definition type_key :: "type_row \<Rightarrow> nat \<times> string" where
  "type_key t = (type_restaurant_id t, restaurant_type t)"

definition insert_type :: "environment \<Rightarrow> type_row \<Rightarrow> unit action" where
  "insert_type env t =
     execute env (InsertRestaurantType t)
       (\<lambda>db. if type_key t \<in> set (map type_key (restaurant_types db)) then db
             else db\<lparr>restaurant_types := restaurant_types db @ [t]\<rparr>)"

fun insert_types :: "environment \<Rightarrow> nat \<Rightarrow> string list \<Rightarrow> unit action" where
  "insert_types env rid [] c = (Inr (), c)"
| "insert_types env rid (ty # rest) c =
     (if ty \<noteq> []
      then and_then
             (insert_type env
                \<lparr>type_restaurant_id = rid, restaurant_type = ty, is_primary_type = False\<rparr>)
             (\<lambda>_. insert_types env rid rest) c
      else insert_types env rid rest c)"

definition insert_restaurant_types :: "environment \<Rightarrow> place_details \<Rightarrow> nat \<Rightarrow> unit action" where
  "insert_restaurant_types env google_fields_data rid =
     and_then
       (insert_types env rid (get_or (types google_fields_data) []))
       (\<lambda>_. case get_text (primaryTypeDisplayName google_fields_data) of
               None \<Rightarrow> (\<lambda>c. (Inr (), c))
             | Some primary_type \<Rightarrow>
                 if primary_type \<noteq> []
                 then insert_type env
                        \<lparr>type_restaurant_id = rid, restaurant_type = primary_type,
                         is_primary_type = True\<rparr>
                 else (\<lambda>c. (Inr (), c)))"

text \<open>The body of the \<open>try\<close> of \<open>process_and_store\<close>.\<close>

definition store_restaurant ::
    "environment \<Rightarrow> string \<Rightarrow> string \<Rightarrow> place_details \<Rightarrow> unit action" where
  "store_restaurant env restaurant_name gid google_fields_data c =
     (case formattedAddress google_fields_data of
        None \<Rightarrow> (Inl MissingAddress, c)
      | Some address \<Rightarrow>
          if address = [] then (Inl MissingAddress, c)
          else
            (case parse_street_name (Some address) of
               Inl e \<Rightarrow> (Inl e, c)
             | Inr street_parsed \<Rightarrow>
                 and_then (insert_restaurant env gid restaurant_name google_fields_data street_parsed)
                   (\<lambda>rid. and_then (add_quota_counter env None)
                     (\<lambda>_. and_then (insert_opening_hours env google_fields_data rid)
                       (\<lambda>_. and_then (insert_restaurant_types env google_fields_data rid)
                         (\<lambda>_. commit env)))) c))"

text \<open>
  \<open>process_and_store\<close>: nothing is done for a name without a place id or details; an
  exception inside the \<open>try\<close> rolls back and is raised again.
\<close>

definition process_and_store :: "environment \<Rightarrow> string \<Rightarrow> unit action" where
  "process_and_store env restaurant_name c =
     (case get_place_details (client env) restaurant_name of
        Inl e \<Rightarrow> (Inl e, c)
      | Inr (None, _) \<Rightarrow> (Inr (), c)
      | Inr (Some gid, None) \<Rightarrow> (Inr (), c)
      | Inr (Some gid, Some google_fields_data) \<Rightarrow>
          if gid = [] \<or> google_fields_data = empty_details then (Inr (), c)
          else
            (case store_restaurant env restaurant_name gid google_fields_data c of
               (Inl e, c') \<Rightarrow> (Inl e, rollback c')
             | (Inr u, c') \<Rightarrow> (Inr u, c')))"

text \<open>
  \<open>get_restaurants_to_insert\<close>: one \<open>(%s)\<close> for each name, joined by commas, go into the
  \<open>VALUES\<close> list of the query. The storage refuses a \<open>VALUES\<close> list without a row as a
  syntax error; otherwise it answers with the names, in order, that are no stored
  \<open>google_name\<close>.
\<close>

definition placeholders :: "string list \<Rightarrow> string" where
  "placeholders restaurants_names_list =
     py_join '','' (replicate (length restaurants_names_list) ''(%s)'')"

definition get_restaurants_to_insert ::
    "environment \<Rightarrow> string list \<Rightarrow> connection \<Rightarrow> py_error + string list" where
  "get_restaurants_to_insert env restaurants_names_list c =
     (if placeholders restaurants_names_list = [] then Inl SyntaxError
      else if storage_rejects env (working c) (SelectNotStored restaurants_names_list)
      then Inl DatabaseError
      else Inr (filter (\<lambda>nome. nome \<notin> set (map (\<lambda>r. google_name (row_params r))
                                               (restaurants (working c))))
                  restaurants_names_list))"

subsection \<open>main\<close>

text \<open>The loop over the names to insert: the first exception leaves it.\<close>

fun process_each :: "environment \<Rightarrow> string list \<Rightarrow> unit action" where
  "process_each env [] c = (Inr (), c)"
| "process_each env (restaurant_name # rest) c =
     and_then (process_and_store env restaurant_name) (\<lambda>_. process_each env rest) c"

text \<open>\<open>main\<close>, from the names the extraction returned on; only the first name is kept.\<close>

definition main :: "environment \<Rightarrow> string list \<Rightarrow> unit action" where
  "main env restaurants_names_list c =
     (case get_restaurants_to_insert env restaurants_names_list c of
        Inl e \<Rightarrow> (Inl e, c)
      | Inr restaurants_to_insert \<Rightarrow> process_each env (slice_to restaurants_to_insert 1) c)"

section \<open>Concrete inputs\<close>

definition empty_db :: database where
  "empty_db =
     \<lparr>restaurants = [], opening_hours = [], restaurant_types = [], google_api_quota = []\<rparr>"

text \<open>A connection to an empty store, no transaction open.\<close>

definition fresh :: connection where
  "fresh = \<lparr>committed = empty_db, working = empty_db, id_seq = 1\<rparr>"

text \<open>
  The detail record of the end-to-end scenario: an address, coordinates, two types, a
  primary type and one period, Monday 10:00 to 22:00.
\<close>

definition paulista :: string where
  "paulista = ''Av. Paulista, 1000, Bela Vista, S'' @ [CHR 0xE3] @ ''o Paulo - SP, Brasil''"

definition bar_details :: place_details where
  "bar_details =
     empty_details
       \<lparr>displayName := Some (Some ''Bar X''),
        formattedAddress := Some paulista,
        location := Some \<lparr>loc_latitude = Some ''-23.56'', loc_longitude = Some ''-46.65''\<rparr>,
        types := Some [''bar'', ''restaurant''],
        primaryTypeDisplayName := Some (Some ''Bar''),
        regularOpeningHours :=
          Some \<lparr>periods = Some [mk_period 1 10 0 22 0], weekdayDescriptions = None\<rparr>\<rparr>"

text \<open>An API that knows one place, \<open>gid1\<close>, and answers every lookup with the given details.\<close>

definition one_place :: "place_details \<Rightarrow> api" where
  "one_place d =
     \<lparr>search_text = (\<lambda>q. Response 200 (Some [Some ''gid1''])),
      place_get = (\<lambda>g. Response 200 d)\<rparr>"

definition accepting :: "api \<Rightarrow> nat \<Rightarrow> environment" where
  "accepting a t =
     \<lparr>client = a, storage_rejects = (\<lambda>db stmt. False), clock = t, month_year = ''2026-11-01''\<rparr>"

text \<open>The same, with a storage that refuses every insert into \<open>opening_hours\<close>.\<close>

definition schedule_fails :: environment where
  "schedule_fails =
     (accepting (one_place bar_details) 5)
       \<lparr>storage_rejects :=
          (\<lambda>db stmt. case stmt of InsertOpeningHours e \<Rightarrow> True | _ \<Rightarrow> False)\<rparr>"

text \<open>The record fetched again later, its primary type now another.\<close>

definition pizzaria_details :: place_details where
  "pizzaria_details = bar_details\<lparr>primaryTypeDisplayName := Some (Some ''Pizzaria'')\<rparr>"

text \<open>A record whose \<open>location\<close> has neither coordinate.\<close>

definition no_coordinates :: place_details where
  "no_coordinates = bar_details\<lparr>location := Some \<lparr>loc_latitude = None, loc_longitude = None\<rparr>\<rparr>"



text \<open>The store after the scenario's record was committed once, and after a second time.\<close>

definition once :: connection where
  "once = snd (process_and_store (accepting (one_place bar_details) 5) ''Bar X'' fresh)"

definition twice :: connection where
  "twice = snd (process_and_store (accepting (one_place bar_details) 9) ''Bar X'' once)"

subsection \<open>Reconciliation in the specification's words\<close>



section \<open>Relations between connections\<close>

text \<open>
  How the type tags of a connection can differ before and after a step. \<open>same_types\<close>:
  the transaction sees the same tags, and the committed tags are the old committed ones
  or those the transaction saw (a commit in between).
\<close>

definition same_types :: "connection \<Rightarrow> connection \<Rightarrow> bool" where
  "same_types c c' \<longleftrightarrow>
     restaurant_types (working c') = restaurant_types (working c)
     \<and> (restaurant_types (committed c') = restaurant_types (committed c)
        \<or> restaurant_types (committed c') = restaurant_types (working c))"

text \<open>\<open>grows\<close>: tags were added at the end, nothing was committed, unique keys stay unique.\<close>

definition grows :: "connection \<Rightarrow> connection \<Rightarrow> type_row list \<Rightarrow> bool" where
  "grows c c' added \<longleftrightarrow>
     restaurant_types (working c') = restaurant_types (working c) @ added
     \<and> restaurant_types (committed c') = restaurant_types (committed c)
     \<and> (distinct (map type_key (restaurant_types (working c)))
          \<longrightarrow> distinct (map type_key (restaurant_types (working c'))))"

text \<open>
  \<open>tail_stored\<close> and \<open>stored\<close>: tags were added at the end, at most one of them flagged
  primary, and the committed tags are the old ones or the new ones.
\<close>

definition tail_stored :: "connection \<Rightarrow> connection \<Rightarrow> bool" where
  "tail_stored c c' \<longleftrightarrow>
     (\<exists>added.
        restaurant_types (working c') = restaurant_types (working c) @ added
        \<and> length (filter is_primary_type added) \<le> 1
        \<and> (distinct (map type_key (restaurant_types (working c)))
             \<longrightarrow> distinct (map type_key (restaurant_types (working c'))))
        \<and> (restaurant_types (committed c') = restaurant_types (committed c)
           \<or> restaurant_types (committed c') = restaurant_types (working c')))"

definition stored :: "connection \<Rightarrow> connection \<Rightarrow> bool" where
  "stored c c' \<longleftrightarrow>
     (\<exists>added.
        restaurant_types (working c') = restaurant_types (working c) @ added
        \<and> length (filter is_primary_type added) \<le> 1
        \<and> (distinct (map type_key (restaurant_types (working c)))
             \<longrightarrow> distinct (map type_key (restaurant_types (working c'))))
        \<and> (restaurant_types (committed c') = restaurant_types (committed c)
           \<or> restaurant_types (committed c') = restaurant_types (working c)
           \<or> restaurant_types (committed c') = restaurant_types (working c')))"

text \<open>
  A sequence of commits: each with its own environment (what the API answers that day),
  whatever the outcome of the one before.
\<close>

fun commits :: "(environment \<times> string) list \<Rightarrow> connection \<Rightarrow> connection" where
  "commits [] c = c"
| "commits ((env, n) # rest) c = commits rest (snd (process_and_store env n c))"



section \<open>Opening hours: the normalised week\<close>

lemma digit_char_not_sign: "d < 10 \<Longrightarrow> digit_char d \<noteq> CHR ''+'' \<and> digit_char d \<noteq> CHR ''-''"
proof -
  assume "d < 10"
  then have "d \<in> {0,1,2,3,4,5,6,7,8,9}" by auto
  then show ?thesis by (auto simp: digit_char_def)
qed

lemma zfill_two_digits:
  assumes "0 \<le> n" "n < 100"
  shows "zfill 2 (py_str_int n) = two_digits n"
proof (cases "n < 10")
  case True
  with assms have s: "py_str_int n = [digit_char (nat n)]"
    by (simp add: py_str_int_def str_nat.simps)
  from True assms have d: "nat n div 10 = 0" "nat n mod 10 = nat n" by auto
  have z: "digit_char 0 = CHR ''0''" by (simp add: digit_char_def)
  from True assms have "nat n < 10" by simp
  from digit_char_not_sign [OF this] show ?thesis
    by (simp add: s zfill_def two_digits_def d z)
next
  case False
  with assms have "nat n div 10 < 10" "\<not> nat n < 10" by auto
  then have "str_nat (nat n) = [digit_char (nat n div 10), digit_char (nat n mod 10)]"
    by (subst str_nat.simps) (simp add: str_nat.simps)
  with assms show ?thesis
    by (simp add: py_str_int_def zfill_def two_digits_def)
qed

lemma format_time_hhmm: "valid_time t \<Longrightarrow> format_time t = hhmm t"
  by (auto simp: valid_time_def in_range_def format_time_def hhmm_def get_or_def
        zfill_two_digits split: option.splits)

lemma open_entry_spec: "valid_period p \<Longrightarrow> open_entry rid p = spec_open_entry rid p"
  by (auto simp: valid_period_def open_entry_def spec_open_entry_def period_day_def Let_def
        format_time_hhmm get_or_def empty_dict_def valid_time_def in_range_def hhmm_def
        split: option.splits)

lemma opened_days_valid:
  "\<forall>p \<in> set ps. valid_period p \<Longrightarrow> opened_days ps = map period_day ps"
  by (induction ps)
     (auto simp: valid_period_def period_day_def get_or_def empty_dict_def split: option.splits)

lemma period_day_range: "valid_period p \<Longrightarrow> period_day p \<in> {0..6}"
  by (auto simp: valid_period_def period_day_def get_or_def split: option.splits)

lemma week_split_length:
  assumes "distinct ds" "set ds \<subseteq> {0..6::int}"
  shows "length ds + length (filter (\<lambda>d. d \<notin> set ds) [0..6]) = 7"
proof -
  have "length (filter (\<lambda>d. d \<in> set ds) [0..6]) = card ({d. d \<in> set ds} \<inter> set [0..6])"
    by (rule distinct_length_filter) simp
  also have "{d. d \<in> set ds} \<inter> set [0..6] = set ds" using assms(2) by auto
  also have "card (set ds) = length ds" using assms(1) by (rule distinct_card)
  finally have a: "length (filter (\<lambda>d. d \<in> set ds) [0..6]) = length ds" .
  have "length (filter (\<lambda>d. d \<in> set ds) [0..6]) + length (filter (\<lambda>d. \<not> d \<in> set ds) [0..6])
          = length [0..6::int]"
    by (rule sum_length_filter_compl)
  with a show ?thesis by simp
qed

lemma format_day_name_inj: "inj_on format_day_name {0..6}"
proof -
  have s: "{0..6::int} = {0,1,2,3,4,5,6}" by auto
  show ?thesis unfolding s by (simp add: format_day_name_def)
qed

lemma entry_days:
  "map day_of_the_week (map (spec_open_entry rid) ps @ map (closed_day_entry rid) ds)
     = map format_day_name (map period_day ps @ ds)"
  by (simp add: spec_open_entry_def closed_day_entry_def comp_def)

lemma format_opening_hours_periods_nonempty:
  "ps \<noteq> [] \<Longrightarrow>
     format_opening_hours_periods (Some ps) rid
       = map (open_entry rid) ps
         @ map (closed_day_entry rid) (filter (\<lambda>d. d \<notin> set (opened_days ps)) [0..6])"
  by (cases ps) (simp_all add: format_opening_hours_periods_def)

text \<open>
  Claim C4. For a list of raw opening periods in which every period has a day from 0 to 6
  (and hours and minutes of a clock) and no day occurs twice, the normaliser returns the
  empty list for no input; otherwise every period becomes an open entry, in the order given,
  with its times as two digits, a colon and two digits, followed by one closed entry with no
  times for each day missing from the input, in ascending order; the result has exactly 7
  entries, one for each day name, none twice.
\<close>

theorem format_opening_hours_periods_week:
  assumes valid: "\<forall>p \<in> set ps. valid_period p"
    and once: "distinct (map period_day ps)"
  shows "format_opening_hours_periods None rid = []
       \<and> format_opening_hours_periods (Some []) rid = []
       \<and> (ps \<noteq> [] \<longrightarrow>
            format_opening_hours_periods (Some ps) rid
              = map (spec_open_entry rid) ps
                @ map (closed_day_entry rid) (filter (\<lambda>d. d \<notin> period_day ` set ps) [0..6])
          \<and> length (format_opening_hours_periods (Some ps) rid) = 7
          \<and> distinct (map day_of_the_week (format_opening_hours_periods (Some ps) rid))
          \<and> set (map day_of_the_week (format_opening_hours_periods (Some ps) rid))
              = format_day_name ` {0..6})"
proof -
  let ?ds = "map period_day ps"
  let ?cs = "filter (\<lambda>d. d \<notin> set ?ds) [0..6]"
  have sub: "set ?ds \<subseteq> {0..6}" using valid period_day_range by auto
  have od: "opened_days ps = ?ds" using valid by (rule opened_days_valid)
  have oe: "map (open_entry rid) ps = map (spec_open_entry rid) ps"
    using valid by (simp add: open_entry_spec)
  have eq: "format_opening_hours_periods (Some ps) rid
              = map (spec_open_entry rid) ps @ map (closed_day_entry rid) ?cs" if ne: "ps \<noteq> []"
    using format_opening_hours_periods_nonempty [OF ne, of rid] by (simp only: od oe)
  have len: "length ?ds + length ?cs = 7" using once sub by (rule week_split_length)
  have dist: "distinct (?ds @ ?cs)" using once by auto
  have cover: "set (?ds @ ?cs) = {0..6}" using sub by auto
  have inj: "inj_on format_day_name (set (?ds @ ?cs))"
    unfolding cover by (rule format_day_name_inj)
  have d2: "distinct (map format_day_name (?ds @ ?cs))"
    using dist inj by (simp only: distinct_map)
  have s2: "set (map format_day_name (?ds @ ?cs)) = format_day_name ` {0..6}"
    using cover by (simp only: set_map)
  have img: "period_day ` set ps = set ?ds" by simp
  show ?thesis
  proof (intro conjI impI)
    show "format_opening_hours_periods None rid = []"
      by (simp add: format_opening_hours_periods_def)
    show "format_opening_hours_periods (Some []) rid = []"
      by (simp add: format_opening_hours_periods_def)
  next
    assume ne: "ps \<noteq> []"
    show "format_opening_hours_periods (Some ps) rid
              = map (spec_open_entry rid) ps
                @ map (closed_day_entry rid) (filter (\<lambda>d. d \<notin> period_day ` set ps) [0..6])"
      unfolding img using eq [OF ne] .
  next
    assume ne: "ps \<noteq> []"
    show "length (format_opening_hours_periods (Some ps) rid) = 7"
      using len by (simp only: eq [OF ne] length_append length_map)
  next
    assume ne: "ps \<noteq> []"
    show "distinct (map day_of_the_week (format_opening_hours_periods (Some ps) rid))"
      using d2 by (simp only: eq [OF ne] entry_days)
  next
    assume ne: "ps \<noteq> []"
    show "set (map day_of_the_week (format_opening_hours_periods (Some ps) rid))
              = format_day_name ` {0..6}"
      using s2 by (simp only: eq [OF ne] entry_days)
  qed
qed

lemma example_periods_valid: "\<forall>p \<in> set example_periods. valid_period p"
  by (simp add: example_periods_def mk_period_def valid_period_def valid_time_def in_range_def)

lemma example_periods_once: "distinct (map period_day example_periods)"
  by (simp add: example_periods_def mk_period_def period_day_def get_or_def)

text \<open>
  Witness for C4: periods for days 1, 3 and 5. Days 0, 2, 4 and 6 come out closed, and
  hour 9, minute 0 is written \<open>09:00\<close>.
\<close>

theorem format_opening_hours_periods_week_witness:
  "list_all valid_period example_periods
   \<and> distinct (map period_day example_periods)
   \<and> length (format_opening_hours_periods (Some example_periods) 7) = 7
   \<and> map (\<lambda>e. (day_of_the_week e, opens_at e, closes_at e, is_opened e))
         (format_opening_hours_periods (Some example_periods) 7)
       = [(Some ''Segunda-feira'', Some ''09:00'', Some ''18:30'', True),
          (Some ''Quarta-feira'', Some ''09:00'', Some ''18:30'', True),
          (Some ''Sexta-feira'', Some ''11:05'', Some ''23:00'', True),
          (Some ''Domingo'', None, None, False),
          (Some (''Ter'' @ [CHR 0xE7] @ ''a-feira''), None, None, False),
          (Some ''Quinta-feira'', None, None, False),
          (Some (''S'' @ [CHR 0xE1] @ ''bado''), None, None, False)]"
proof -
  have ne: "example_periods \<noteq> []" by (simp add: example_periods_def)
  have u: "[0..6::int] = [0, 1, 2, 3, 4, 5, 6]" by (simp add: upto.simps)
  note w = format_opening_hours_periods_week [OF example_periods_valid example_periods_once, of 7]
  from w ne have len: "length (format_opening_hours_periods (Some example_periods) 7) = 7"
    by blast
  from w ne have eq: "format_opening_hours_periods (Some example_periods) 7
      = map (spec_open_entry 7) example_periods
        @ map (closed_day_entry 7) (filter (\<lambda>d. d \<notin> period_day ` set example_periods) [0..6])"
    by blast
  have rows: "map (\<lambda>e. (day_of_the_week e, opens_at e, closes_at e, is_opened e))
         (format_opening_hours_periods (Some example_periods) 7)
       = [(Some ''Segunda-feira'', Some ''09:00'', Some ''18:30'', True),
          (Some ''Quarta-feira'', Some ''09:00'', Some ''18:30'', True),
          (Some ''Sexta-feira'', Some ''11:05'', Some ''23:00'', True),
          (Some ''Domingo'', None, None, False),
          (Some (''Ter'' @ [CHR 0xE7] @ ''a-feira''), None, None, False),
          (Some ''Quinta-feira'', None, None, False),
          (Some (''S'' @ [CHR 0xE1] @ ''bado''), None, None, False)]"
    unfolding eq u
    by (simp add: example_periods_def mk_period_def spec_open_entry_def closed_day_entry_def
          period_day_def get_or_def hhmm_def two_digits_def digit_char_def format_day_name_def)
  have "list_all valid_period example_periods"
    using example_periods_valid by (simp only: list_all_iff)
  with example_periods_once len rows show ?thesis by blast
qed

section \<open>The address parser\<close>

subsection \<open>The rounds of the matcher are enough\<close>

text \<open>
  A match never leaves the subject and never moves backwards. So a repetition cannot go
  through more rounds than there are characters left, and \<open>re.sub\<close> not through more
  than two for each character: giving either more rounds changes nothing.
\<close>

lemma star_from_bound:
  assumes body: "\<And>st st'. st' \<in> set (body st) \<Longrightarrow> fst st \<le> length s
                   \<Longrightarrow> fst st \<le> fst st' \<and> fst st' \<le> length s"
  shows "st' \<in> set (star_from n body st) \<Longrightarrow> fst st \<le> length s
           \<Longrightarrow> fst st \<le> fst st' \<and> fst st' \<le> length s"
proof (induction n arbitrary: st st')
  case 0
  then show ?case by simp
next
  case (Suc n)
  from Suc.prems(1) consider "st' = st"
    | mid where "mid \<in> set (body st)" "st' \<in> set (star_from n body mid)"
    by auto
  then show ?case
  proof cases
    case 1
    with Suc.prems(2) show ?thesis by simp
  next
    case 2
    from body [OF 2(1) Suc.prems(2)] have m: "fst st \<le> fst mid" "fst mid \<le> length s" by simp_all
    from Suc.IH [OF 2(2) m(2)] m(1) show ?thesis by simp
  qed
qed

lemma rmatch_bound:
  "st' \<in> set (rmatch r s st) \<Longrightarrow> fst st \<le> length s
     \<Longrightarrow> fst st \<le> fst st' \<and> fst st' \<le> length s"
proof (induction r arbitrary: st st')
  case (Seq a b)
  from Seq.prems(1) obtain mid where mid: "mid \<in> set (rmatch a s st)" "st' \<in> set (rmatch b s mid)"
    by auto
  from Seq.IH(1) [OF mid(1) Seq.prems(2)] have m: "fst st \<le> fst mid" "fst mid \<le> length s"
    by simp_all
  from Seq.IH(2) [OF mid(2) m(2)] m(1) show ?case by simp
next
  case (Alt a b)
  from Alt.prems(1) consider "st' \<in> set (rmatch a s st)" | "st' \<in> set (rmatch b s st)"
    by auto
  then show ?case using Alt.IH Alt.prems(2) by cases blast+
next
  case (Star a)
  from Star.prems(1) have "st' \<in> set (star_from (length s - fst st) (rmatch a s) st)" by simp
  then show ?case using Star.prems(2) Star.IH by (rule star_from_bound [rotated 1])
next
  case (Opt a)
  from Opt.prems(1) consider "st' \<in> set (rmatch a s st)" | "st' = st" by auto
  then show ?case using Opt.IH Opt.prems(2) by cases auto
next
  case (Group n a)
  from Group.prems(1) obtain mid where mid: "mid \<in> set (rmatch a s st)"
    and st': "fst st' = fst mid" by auto
  from Group.IH [OF mid Group.prems(2)] st' show ?case by simp
qed (auto simp: step_char_def split: if_splits)

text \<open>More rounds than characters are left change nothing.\<close>

lemma star_from_fuel:
  assumes body: "\<And>st st'. st' \<in> set (body st) \<Longrightarrow> fst st \<le> length s
                   \<Longrightarrow> fst st \<le> fst st' \<and> fst st' \<le> length s"
  shows "fst st \<le> length s \<Longrightarrow> length s - fst st \<le> n
           \<Longrightarrow> star_from (Suc n) body st = star_from n body st"
proof (induction n arbitrary: st)
  case 0
  then have e: "fst st = length s" by simp
  have "filter (\<lambda>st'. fst st < fst st') (body st) = []"
  proof (rule filter_False, rule ballI)
    fix x assume "x \<in> set (body st)"
    from body [OF this "0.prems"(1)] e show "\<not> fst st < fst x" by simp
  qed
  then show ?case by simp
next
  case (Suc n)
  have step: "star_from (Suc n) body x = star_from n body x"
    if "x \<in> set (filter (\<lambda>st'. fst st < fst st') (body st))" for x
  proof -
    from that have x: "x \<in> set (body st)" "fst st < fst x" by simp_all
    from body [OF x(1) Suc.prems(1)] have b: "fst x \<le> length s" by simp
    from x(2) Suc.prems(2) have "length s - fst x \<le> n" by arith
    with b show ?thesis by (rule Suc.IH)
  qed
  have "map (star_from (Suc n) body) (filter (\<lambda>st'. fst st < fst st') (body st))
      = map (star_from n body) (filter (\<lambda>st'. fst st < fst st') (body st))"
    by (rule map_cong [OF refl]) (rule step)
  then show ?case by (simp only: star_from.simps)
qed

lemma star_from_enough:
  assumes "fst st \<le> length s"
  shows "star_from (length s - fst st + k) (rmatch a s) st = rmatch (Star a) s st"
proof (induction k)
  case 0
  show ?case by simp
next
  case (Suc k)
  have "star_from (Suc (length s - fst st + k)) (rmatch a s) st
      = star_from (length s - fst st + k) (rmatch a s) st"
    by (rule star_from_fuel [where s = s]) (auto intro: assms dest: rmatch_bound)
  with Suc show ?case by simp
qed

lemma first_match_span:
  assumes "first_match r s adv ps = Some m" and "\<forall>i \<in> set ps. i \<le> length s"
  shows "m_start m \<in> set ps \<and> m_start m \<le> m_end m \<and> m_end m \<le> length s
       \<and> (adv \<and> m_start m = hd ps \<and> distinct ps \<longrightarrow> m_start m < m_end m)"
  using assms
proof (induction ps arbitrary: adv)
  case Nil
  then show ?case by simp
next
  case (Cons i ps)
  show ?case
  proof (cases "filter (\<lambda>st. if adv then i < fst st else True) (rmatch r s (i, []))")
    case Nil
    with Cons.prems(1) have f: "first_match r s False ps = Some m" by simp
    from Cons.IH [OF f] Cons.prems(2)
    have "m_start m \<in> set ps" "m_start m \<le> m_end m" "m_end m \<le> length s" by auto
    then show ?thesis by auto
  next
    case (Cons st rest)
    then have "st \<in> set (filter (\<lambda>st. if adv then i < fst st else True) (rmatch r s (i, [])))"
      by simp
    then have st: "st \<in> set (rmatch r s (i, []))" "adv \<longrightarrow> i < fst st" by auto
    from Cons.prems(2) have "fst (i, []) \<le> length s" by simp
    from rmatch_bound [OF st(1) this] have b: "i \<le> fst st" "fst st \<le> length s" by simp_all
    from Cons.prems(1) Cons have "m_start m = i" "m_end m = fst st" by auto
    with b st(2) show ?thesis by auto
  qed
qed

text \<open>More rounds of \<open>re.sub\<close> than two for each character left change nothing.\<close>

lemma sub_from_fuel:
  "pos \<le> length s \<Longrightarrow> 2 * (length s - pos) + (if adv then 0 else 1) \<le> n
     \<Longrightarrow> sub_from (Suc n) r repl s pos adv = sub_from n r repl s pos adv"
proof (induction n arbitrary: pos adv)
  case 0
  then have e: "pos = length s" "adv" by (auto split: if_splits)
  have "first_match r s True [length s..<Suc (length s)] = None"
  proof (cases "first_match r s True [length s..<Suc (length s)]")
    case (Some m)
    have h: "hd [length s..<Suc (length s)] = length s" by (simp only: hd_upt lessI)
    have b: "\<forall>i \<in> set [length s..<Suc (length s)]. i \<le> length s" by auto
    note f = first_match_span [OF Some b, unfolded h]
    from f have "m_start m = length s" "m_end m \<le> length s" by auto
    moreover from f this(1) have "m_start m < m_end m" by (simp only: distinct_upt)
    ultimately show ?thesis by simp
  qed simp
  with e show ?case by simp
next
  case (Suc n)
  show ?case
  proof (cases "first_match r s adv [pos..<Suc (length s)]")
    case None
    then show ?thesis by simp
  next
    case (Some m)
    have h: "hd [pos..<Suc (length s)] = pos"
      using Suc.prems(1) by (simp only: hd_upt le_imp_less_Suc)
    have b: "\<forall>i \<in> set [pos..<Suc (length s)]. i \<le> length s" by auto
    note f = first_match_span [OF Some b, unfolded h]
    from f have sp: "pos \<le> m_start m" "m_start m \<le> m_end m" "m_end m \<le> length s"
      by auto
    from f have adv: "adv \<and> m_start m = pos \<longrightarrow> m_start m < m_end m"
      by (simp only: distinct_upt) blast
    have "2 * (length s - m_end m) + (if m_end m = m_start m then 0 else 1) \<le> n"
      using sp adv Suc.prems(2) by (auto split: if_splits)
    with sp(3) have "sub_from (Suc n) r repl s (m_end m) (m_end m = m_start m)
        = sub_from n r repl s (m_end m) (m_end m = m_start m)"
      by (rule Suc.IH)
    with Some show ?thesis by simp
  qed
qed

lemma sub_from_enough: "sub_from (2 * length s + 2 + k) r repl s 0 False = re_sub r repl s"
proof (induction k)
  case 0
  show ?case by (simp add: re_sub_def)
next
  case (Suc k)
  have "sub_from (Suc (2 * length s + 2 + k)) r repl s 0 False
      = sub_from (2 * length s + 2 + k) r repl s 0 False"
    by (rule sub_from_fuel) simp_all
  with Suc show ?case by simp
qed

subsection \<open>Groups of a match\<close>

text \<open>
  Matching only adds groups, so a group that lies on every path through the pattern is
  set in every match, and \<open>group\<close> cannot fail on it.
\<close>

lemma star_from_keys:
  assumes body: "\<And>st st'. st' \<in> set (body st) \<Longrightarrow> keys st \<subseteq> keys st'"
  shows "st' \<in> set (star_from n body st) \<Longrightarrow> keys st \<subseteq> keys st'"
proof (induction n arbitrary: st st')
  case 0
  then show ?case by simp
next
  case (Suc n)
  from Suc.prems consider "st' = st"
    | mid where "mid \<in> set (body st)" "st' \<in> set (star_from n body mid)"
    by auto
  then show ?case
  proof cases
    case 1
    then show ?thesis by simp
  next
    case 2
    from body [OF 2(1)] Suc.IH [OF 2(2)] show ?thesis by blast
  qed
qed

lemma rmatch_keys: "st' \<in> set (rmatch r s st) \<Longrightarrow> keys st \<subseteq> keys st'"
proof (induction r arbitrary: st st')
  case (Seq a b)
  then obtain mid where "mid \<in> set (rmatch a s st)" "st' \<in> set (rmatch b s mid)" by auto
  with Seq.IH show ?case by blast
next
  case (Star a)
  from Star.prems have "st' \<in> set (star_from (length s - fst st) (rmatch a s) st)" by simp
  then show ?case using Star.IH by (rule star_from_keys [rotated])
next
  case (Group n a)
  from Group.prems obtain mid where mid: "mid \<in> set (rmatch a s st)"
    and st': "st' = (fst mid, (n, fst st, fst mid) # snd mid)" by auto
  from st' have "keys st' = insert n (keys mid)" by (simp add: keys_def)
  with Group.IH [OF mid] show ?case by blast
next
  case (Alt a b)
  from Alt.prems consider "st' \<in> set (rmatch a s st)" | "st' \<in> set (rmatch b s st)"
    by auto
  then show ?case using Alt.IH by cases blast+
next
  case (Opt a)
  from Opt.prems consider "st' \<in> set (rmatch a s st)" | "st' = st" by auto
  then show ?case using Opt.IH by cases blast+
qed (auto simp: step_char_def keys_def split: if_splits)

lemma rmatch_has_group:
  "has_group n r \<Longrightarrow> st' \<in> set (rmatch r s st) \<Longrightarrow> n \<in> keys st'"
proof (induction r arbitrary: st st')
  case (Seq a b)
  from Seq.prems(2) obtain mid where mid: "mid \<in> set (rmatch a s st)" "st' \<in> set (rmatch b s mid)"
    by auto
  from Seq.prems(1) consider "has_group n a" | "has_group n b" by auto
  then show ?case
  proof cases
    case 1
    with Seq.IH(1) mid(1) have "n \<in> keys mid" by blast
    with rmatch_keys [OF mid(2)] show ?thesis by blast
  next
    case 2
    with Seq.IH(2) mid(2) show ?thesis by blast
  qed
next
  case (Alt a b)
  from Alt.prems(1) have ga: "has_group n a" and gb: "has_group n b" by simp_all
  from Alt.prems(2) consider "st' \<in> set (rmatch a s st)" | "st' \<in> set (rmatch b s st)"
    by auto
  then show ?case using Alt.IH(1) [OF ga] Alt.IH(2) [OF gb] by cases blast+
next
  case (Group m a)
  from Group.prems(2) obtain mid where mid: "mid \<in> set (rmatch a s st)"
    and st': "st' = (fst mid, (m, fst st, fst mid) # snd mid)" by auto
  from st' have k: "keys st' = insert m (keys mid)" by (simp add: keys_def)
  show ?case
  proof (cases "n = m")
    case True
    with k show ?thesis by simp
  next
    case False
    with Group.prems(1) have "has_group n a" by simp
    from Group.IH [OF this mid] k show ?thesis by simp
  qed
qed simp_all

lemma first_match_group:
  "first_match r s b ps = Some m \<Longrightarrow> has_group n r \<Longrightarrow> \<exists>x. group t m n = Inr x"
proof (induction ps arbitrary: b)
  case Nil
  then show ?case by simp
next
  case (Cons i ps)
  show ?case
  proof (cases "filter (\<lambda>st. if b then i < fst st else True) (rmatch r s (i, []))")
    case Nil
    with Cons show ?thesis by simp
  next
    case (Cons st rest)
    then have "st \<in> set (filter (\<lambda>st. if b then i < fst st else True) (rmatch r s (i, [])))"
      by simp
    then have "st \<in> set (rmatch r s (i, []))"
      by simp
    with Cons.prems(2) have "n \<in> keys st" by (rule rmatch_has_group)
    then have "map_of (snd st) n \<noteq> None"
      by (simp add: keys_def map_of_eq_None_iff)
    moreover from Cons.prems(1) Cons have "m_groups m = snd st" by auto
    ultimately show ?thesis by (auto simp: group_def)
  qed
qed

lemma re_search_group: "re_search r s = Some m \<Longrightarrow> has_group n r \<Longrightarrow> \<exists>x. group t m n = Inr x"
  unfolding re_search_def by (rule first_match_group)

lemma re_match_group: "re_match r s = Some m \<Longrightarrow> has_group n r \<Longrightarrow> \<exists>x. group t m n = Inr x"
  unfolding re_match_def by (rule first_match_group)

lemma country_re_group: "has_group 1 country_re"
  by (simp add: country_re_def seq_def)

lemma postalcode_re_group: "has_group 1 postalcode_re"
  by (simp add: postalcode_re_def seq_def)

lemma state_re_group: "has_group 1 state_re"
  by (simp add: state_re_def seq_def)

lemma number_dash_re_group: "has_group 1 number_dash_re" "has_group 2 number_dash_re"
  by (simp_all add: number_dash_re_def seq_def)

lemma number_space_re_group: "has_group 1 number_space_re" "has_group 2 number_space_re"
  by (simp_all add: number_space_re_def seq_def)

lemma py_index_first: "0 < length xs \<Longrightarrow> py_index xs 0 = Inr (xs ! 0)"
  by (simp add: py_index_def resolve_index_def)

lemma py_index_last: "0 < length xs \<Longrightarrow> py_index xs (- 1) = Inr (last xs)"
  by (cases xs rule: rev_cases) (auto simp: py_index_def resolve_index_def nth_append)

lemma py_setitem_first: "0 < length xs \<Longrightarrow> py_setitem xs 0 v = Inr (xs[0 := v])"
  by (simp add: py_setitem_def resolve_index_def)

lemma py_setitem_last: "0 < length xs \<Longrightarrow> py_setitem xs (- 1) v = Inr (xs[length xs - 1 := v])"
  by (cases xs rule: rev_cases) (auto simp: py_setitem_def resolve_index_def)

lemma extract_country_ok: "\<exists>x. extract_country a = Inr x"
proof (cases "re_search country_re a")
  case None
  then show ?thesis by (simp add: extract_country_def)
next
  case (Some m)
  from re_search_group [OF Some country_re_group] obtain g where "group a m 1 = Inr g" by blast
  with Some show ?thesis by (simp add: extract_country_def)
qed

lemma extract_postalcode_ok: "\<exists>x. extract_postalcode a = Inr x"
proof (cases "re_search postalcode_re a")
  case None
  then show ?thesis by (simp add: extract_postalcode_def)
next
  case (Some m)
  from re_search_group [OF Some postalcode_re_group] obtain g where "group a m 1 = Inr g" by blast
  with Some show ?thesis by (simp add: extract_postalcode_def)
qed

lemma extract_state_ok: "\<exists>x. extract_state a = Inr x"
proof (cases "re_search state_re a")
  case None
  then show ?thesis by (simp add: extract_state_def)
next
  case (Some m)
  from re_search_group [OF Some state_re_group] obtain g where "group a m 1 = Inr g" by blast
  with Some show ?thesis by (simp add: extract_state_def)
qed

lemma extract_city_ok: "\<exists>x. extract_city a = Inr x"
  by (simp add: extract_city_def Let_def py_index_last)

lemma extract_number_ok: "\<exists>x. extract_number parts = Inr x"
proof (cases "length parts \<ge> 1")
  case False
  then show ?thesis by (simp add: extract_number_def)
next
  case True
  then have len: "0 < length parts" "parts \<noteq> []" by auto
  define pn where "pn = py_strip (re_sub leading_dash_re '''' (py_strip (parts ! 0)))"
  show ?thesis
  proof (cases "re_match number_re pn \<noteq> None")
    case True
    with len show ?thesis
      by (simp add: extract_number_def py_index_first Let_def pn_def)
  next
    case nonum: False
    show ?thesis
    proof (cases "re_match number_dash_re pn")
      case (Some m)
      from re_match_group [OF Some number_dash_re_group(1)] obtain g1 where "group pn m 1 = Inr g1"
        by blast
      moreover from re_match_group [OF Some number_dash_re_group(2)] obtain g2 where "group pn m 2 = Inr g2"
        by blast
      ultimately show ?thesis using len nonum Some
        by (simp add: extract_number_def py_index_first py_setitem_first Let_def pn_def [symmetric])
    next
      case None
      show ?thesis
      proof (cases "re_match number_space_re pn")
        case (Some m)
        from re_match_group [OF Some number_space_re_group(1)] obtain g1 where "group pn m 1 = Inr g1"
          by blast
        moreover from re_match_group [OF Some number_space_re_group(2)] obtain g2 where "group pn m 2 = Inr g2"
          by blast
        ultimately show ?thesis using len nonum None Some
          by (simp add: extract_number_def py_index_first py_setitem_first Let_def pn_def [symmetric])
      next
        case none2: None
        with len nonum None show ?thesis
          by (simp add: extract_number_def py_index_first Let_def pn_def [symmetric])
      qed
    qed
  qed
qed

lemma extract_neighborhood_ok: "\<exists>x. extract_neighborhood parts = Inr x"
  by (simp add: extract_neighborhood_def Let_def py_index_last py_setitem_last)

lemma parse_street_part_ok: "\<exists>x. parse_street_part res a = Inr x"
proof -
  define parts where "parts = map py_strip (filter (\<lambda>p. py_strip p \<noteq> []) (py_split_on CHR '','' a))"
  obtain st fp where m: "match_street_type street_types (parts ! 0) = (st, fp)"
    by (cases "match_street_type street_types (parts ! 0)")
  obtain num parts' where n: "extract_number (slice_from parts 1) = Inr (num, parts')"
    using extract_number_ok [of "slice_from parts 1"] by auto
  obtain nb compl where b: "extract_neighborhood parts' = Inr (nb, compl)"
    using extract_neighborhood_ok [of parts'] by auto
  show ?thesis
    by (simp add: parse_street_part_def Let_def parts_def [symmetric] py_index_first m n b)
qed

lemma parse_street_name_ok: "\<exists>r. parse_street_name a = Inr r"
proof (cases a)
  case None
  then show ?thesis by (simp add: parse_street_name_def)
next
  case (Some raw)
  define ad where "ad = py_join '' '' (py_split raw)"
  obtain co a1 where c: "extract_country ad = Inr (co, a1)"
    using extract_country_ok [of ad] by auto
  obtain pc a2 where p: "extract_postalcode a1 = Inr (pc, a2)"
    using extract_postalcode_ok [of a1] by auto
  obtain st a3 where s: "extract_state a2 = Inr (st, a3)"
    using extract_state_ok [of a2] by auto
  obtain ci a4 where i: "extract_city a3 = Inr (ci, a4)"
    using extract_city_ok [of a3] by auto
  from Some show ?thesis
    by (simp add: parse_street_name_def Let_def ad_def [symmetric] c p s i parse_street_part_ok)
qed

text \<open>
  Claim C9. The address parser is total: for every input (a string, or no string at all)
  it returns a structured address and raises nothing; no index is out of range and no
  group is missing. On the empty string every one of the nine fields is absent.
\<close>

theorem parse_street_name_total:
  "(\<exists>r. parse_street_name a = Inr r)
   \<and> parse_street_name (Some []) =
       Inr \<lparr>street_type = None, street_name = None, street_number = None,
            street_complement = None, street_neighborhood = None, postalcode = None,
            city = None, state = None, country = None\<rparr>"
proof
  show "\<exists>r. parse_street_name a = Inr r" by (rule parse_street_name_ok)
  show "parse_street_name (Some []) =
       Inr \<lparr>street_type = None, street_name = None, street_number = None,
            street_complement = None, street_neighborhood = None, postalcode = None,
            city = None, state = None, country = None\<rparr>"
    by (simp add: parse_street_name_def empty_address_def)
qed

text \<open>
  Claim C5. On the well-formed address
  \<open>Rua Augusta, 123 - Consola\<close>\<open>o, S\<close>\<open>o Paulo - SP, 01305-000, Brasil\<close>
  (written with its cedilla and tildes) the parser finds street type \<open>Rua\<close>, street name
  \<open>Augusta\<close>, number \<open>123\<close>, the neighbourhood, the city, state \<open>SP\<close>, postal
  code \<open>01305000\<close> without its dash, country \<open>Brasil\<close>, and no complement.
\<close>

theorem parse_street_name_augusta:
  "parse_street_name (Some augusta) =
     Inr \<lparr>street_type = Some ''Rua'',
          street_name = Some ''Augusta'',
          street_number = Some ''123'',
          street_complement = None,
          street_neighborhood = Some (''Consola'' @ [CHR 0xE7, CHR 0xE3] @ ''o''),
          postalcode = Some ''01305000'',
          city = Some (''S'' @ [CHR 0xE3] @ ''o Paulo''),
          state = Some ''SP'',
          country = Some ''Brasil''\<rparr>"
  by code_simp

section \<open>The pipeline on concrete inputs\<close>

lemma details_found: "get_place_details (one_place d) n = Inr (Some ''gid1'', Some d)"
  by (simp add: get_place_details_def get_place_id_def one_place_def py_index_def
        resolve_index_def)



lemma paulista_nonempty: "paulista \<noteq> []"
  by (simp add: paulista_def)

lemma paulista_parsed:
  "parse_street_name (Some paulista) =
     Inr \<lparr>street_type = Some ''Av.'', street_name = Some ''Paulista'',
          street_number = Some ''1000'', street_complement = None,
          street_neighborhood = Some ''Bela Vista'', postalcode = None,
          city = Some (''S'' @ [CHR 0xE3] @ ''o Paulo''), state = Some ''SP'',
          country = Some ''Brasil''\<rparr>"
  by code_simp

lemma monday_schedule:
  "format_opening_hours_periods (Some [mk_period 1 10 0 22 0]) rid =
     [\<lparr>restaurant_id = rid, day_of_the_week = Some ''Segunda-feira'', opens_at = Some ''10:00'',
       closes_at = Some ''22:00'', is_opened = True\<rparr>,
      closed_day_entry rid 0, closed_day_entry rid 2, closed_day_entry rid 3,
      closed_day_entry rid 4, closed_day_entry rid 5, closed_day_entry rid 6]"
proof -
  have u: "[0..6::int] = [0, 1, 2, 3, 4, 5, 6]" by (simp add: upto.simps)
  have t: "zfill 2 (py_str_int 10) = ''10''" "zfill 2 (py_str_int 0) = ''00''"
    "zfill 2 (py_str_int 22) = ''22''" by code_simp+
  have d: "format_day_name 1 = Some ''Segunda-feira''" by (simp add: format_day_name_def)
  show ?thesis
    by (simp add: format_opening_hours_periods_def u mk_period_def open_entry_def Let_def
          get_or_def format_time_def t d empty_dict_def)
qed

lemmas run_defs =
  process_and_store_def accepting_def details_found bar_details_def empty_details_def
  store_restaurant_def paulista_parsed paulista_nonempty and_then_def insert_restaurant_def
  build_restaurant_params_def upsert_restaurant_def fresh_def empty_db_def get_text_def
  py_str_def get_or_def format_opening_hours_description_def add_quota_counter_def
  execute_def commit_def quota_matches_def quota_limits_standard_def insert_opening_hours_def
  monday_schedule rollback_def Let_def insert_restaurant_types_def insert_type_def type_key_def
  closed_day_entry_def format_day_name_def

text \<open>
  Claim C1 (commit is atomic) against the code. The restaurant is new and the storage
  refuses the inserts into the weekly schedule. \<open>process_and_store\<close> raises and rolls
  back, but \<open>add_quota_counter\<close>, called between the upsert and the schedule, has already
  committed on the same connection: the restaurant row is stored, without schedule.
\<close>

theorem process_and_store_partial_write:
  "fst (process_and_store schedule_fails ''Bar X'' fresh) = Inl DatabaseError
   \<and> restaurants (committed fresh) = []
   \<and> map (\<lambda>r. (row_id r, google_name (row_params r)))
         (restaurants (committed (snd (process_and_store schedule_fails ''Bar X'' fresh))))
       = [(1, ''Bar X'')]
   \<and> opening_hours (committed (snd (process_and_store schedule_fails ''Bar X'' fresh))) = []"
  by (simp add: schedule_fails_def run_defs)

text \<open>
  Claim C2 (commit is idempotent) against the code. The same record is committed twice.
  Both commits return normally and the restaurant keeps its id, but the schedule rows of
  the second commit are added to those of the first: 14 rows instead of 7. The same
  happens over two runs of \<open>main\<close> when a second name of the list leads to the same place.
\<close>

theorem second_commit_doubles_schedule:
  "length (opening_hours (committed once)) = 7
   \<and> length (opening_hours (committed twice)) = 14
   \<and> map row_id (restaurants (committed once)) = [1]
   \<and> map row_id (restaurants (committed twice)) = [1]
   \<and> restaurant_types (committed twice) = restaurant_types (committed once)
   \<and> length (opening_hours (committed
         (snd (main (accepting (one_place bar_details) 9) [''Bar X'', ''Bar do X'']
                (snd (main (accepting (one_place bar_details) 5) [''Bar X''] fresh))))))
       = 14"
  by (simp add: once_def twice_def run_defs main_def get_restaurants_to_insert_def
        placeholders_def slice_to_def slice_bound_def)

text \<open>
  Claim C6 (missing fields are stored as null) against the code. The record has an
  address and a \<open>location\<close> without coordinates. Latitude and longitude are stored as the
  four letters \<open>None\<close>, not as null; the website, missing as well, is null.
\<close>

theorem missing_coordinates_stored_as_text:
  "map (\<lambda>r. (latitude (row_params r), longitude (row_params r), website (row_params r)))
     (restaurants (committed
        (snd (process_and_store (accepting (one_place no_coordinates) 5) ''Bar X'' fresh))))
     = [(Some ''None'', Some ''None'', None)]"
  by (simp add: no_coordinates_def run_defs)

text \<open>
  Claim C10. With no candidate names the list of placeholders is the empty string, the
  query is malformed, and \<open>get_restaurants_to_insert\<close> raises instead of returning an
  empty list.
\<close>

theorem get_restaurants_to_insert_empty:
  "placeholders [] = [] \<and> get_restaurants_to_insert env [] c = Inl SyntaxError"
  by (simp add: get_restaurants_to_insert_def placeholders_def)

section \<open>Type tags across commits\<close>

lemma same_types_refl: "same_types c c"
  by (simp add: same_types_def)

lemma same_types_trans: "same_types a b \<Longrightarrow> same_types b c \<Longrightarrow> same_types a c"
  by (auto simp: same_types_def)

lemma and_then_rel:
  assumes "R1 c (snd (m c))"
    and "\<And>a. R2 (snd (m c)) (snd (f a (snd (m c))))"
    and "\<And>y. R1 c y \<Longrightarrow> R c y"
    and "\<And>y z. R1 c y \<Longrightarrow> R2 y z \<Longrightarrow> R c z"
  shows "R c (snd (and_then m f c))"
proof (cases "m c")
  case (Pair r y)
  show ?thesis
  proof (cases r)
    case (Inl e)
    with Pair assms(1,3) show ?thesis by (simp add: and_then_def)
  next
    case (Inr a)
    with Pair have "snd (and_then m f c) = snd (f a (snd (m c)))" by (simp add: and_then_def)
    with assms(1,2,4) show ?thesis by metis
  qed
qed

lemma and_then_same_types:
  assumes "\<And>c. same_types c (snd (m c))" and "\<And>a c. same_types c (snd (f a c))"
  shows "same_types c (snd (and_then m f c))"
  by (rule and_then_rel [where ?R1.0 = same_types and ?R2.0 = same_types])
     (auto intro: assms same_types_trans)

lemma and_then_Inr:
  "and_then m f c = (Inr u, c') \<Longrightarrow> \<exists>a c1. m c = (Inr a, c1) \<and> f a c1 = (Inr u, c')"
  by (auto simp: and_then_def split: prod.splits sum.splits)

lemma execute_same_types:
  assumes "\<And>db. restaurant_types (effect db) = restaurant_types db"
  shows "same_types c (snd (execute env stmt effect c))"
  by (simp add: execute_def same_types_def assms)

lemma commit_same_types: "same_types c (snd (commit env c))"
  by (simp add: commit_def same_types_def)

lemma commit_Inr: "commit env c = (Inr u, c') \<Longrightarrow> working c' = committed c'"
  by (auto simp: commit_def split: if_splits)

lemma quota_loop_same_types: "same_types c (snd (quota_loop env services c))"
proof (induction services arbitrary: c)
  case Nil
  show ?case by (simp add: same_types_refl)
next
  case (Cons service rest)
  have upd: "same_types c (snd (and_then (execute env stmt (\<lambda>db. db\<lparr>google_api_quota := g db\<rparr>))
                                 (\<lambda>_. quota_loop env rest) c))" for stmt g
    by (rule and_then_same_types) (simp_all add: execute_same_types Cons.IH)
  show ?case
    by (auto simp: same_types_refl Cons.IH upd Let_def split: option.splits)
qed

lemma add_quota_counter_same_types: "same_types c (snd (add_quota_counter env services c))"
  unfolding add_quota_counter_def
  by (rule and_then_same_types) (simp_all add: quota_loop_same_types commit_same_types)

lemma upsert_restaurant_same_types: "same_types c (snd (upsert_restaurant env p c))"
  by (simp add: upsert_restaurant_def same_types_def split: list.splits)

lemma insert_restaurant_same_types:
  "same_types c (snd (insert_restaurant env gid n d sp c))"
  by (simp add: insert_restaurant_def upsert_restaurant_same_types same_types_refl
        split: sum.splits)

lemma insert_periods_same_types: "same_types c (snd (insert_periods env es c))"
proof (induction es arbitrary: c)
  case Nil
  show ?case by (simp add: same_types_refl)
next
  case (Cons e es)
  show ?case
    unfolding insert_periods.simps
    by (rule and_then_same_types) (simp_all add: execute_same_types Cons.IH)
qed

lemma insert_opening_hours_same_types: "same_types c (snd (insert_opening_hours env d rid c))"
  by (simp add: insert_opening_hours_def Let_def same_types_refl insert_periods_same_types
        split: option.splits list.splits)

lemma grows_refl: "grows c c []"
  by (simp add: grows_def)

lemma insert_type_grows:
  "\<exists>added. grows c (snd (insert_type env t c)) added \<and> (added = [] \<or> added = [t])"
proof (cases "storage_rejects env (working c) (InsertRestaurantType t)")
  case True
  then have "snd (insert_type env t c) = c" by (simp add: insert_type_def execute_def)
  then show ?thesis using grows_refl by auto
next
  case False
  show ?thesis
  proof (cases "type_key t \<in> set (map type_key (restaurant_types (working c)))")
    case True
    with False have "grows c (snd (insert_type env t c)) []"
      by (simp add: insert_type_def execute_def grows_def)
    then show ?thesis by blast
  next
    case new: False
    with False have "grows c (snd (insert_type env t c)) [t]"
      by (simp add: insert_type_def execute_def grows_def)
    then show ?thesis by blast
  qed
qed

lemma grows_trans:
  assumes "grows a b xs" and "grows b c ys"
  shows "grows a c (xs @ ys)"
proof -
  from assms have w: "restaurant_types (working c) = restaurant_types (working a) @ xs @ ys"
    by (simp add: grows_def)
  from assms have k: "restaurant_types (committed c) = restaurant_types (committed a)"
    by (simp add: grows_def)
  from assms have d: "distinct (map type_key (restaurant_types (working a)))
      \<longrightarrow> distinct (map type_key (restaurant_types (working c)))"
    unfolding grows_def by blast
  from w k d show ?thesis unfolding grows_def by blast
qed

lemma insert_types_grows:
  "\<exists>added. grows c (snd (insert_types env rid tys c)) added
      \<and> filter is_primary_type added = []"
proof (induction tys arbitrary: c)
  case Nil
  have "grows c (snd (insert_types env rid [] c)) [] \<and> filter is_primary_type [] = []"
    by (simp add: grows_refl)
  then show ?case by (rule exI)
next
  case (Cons ty rest)
  show ?case
  proof (cases "ty = []")
    case True
    with Cons.IH show ?thesis by simp
  next
    case False
    let ?t = "\<lparr>type_restaurant_id = rid, restaurant_type = ty, is_primary_type = False\<rparr>"
    obtain r y where y: "insert_type env ?t c = (r, y)" by (cases "insert_type env ?t c")
    from insert_type_grows [of c env ?t] y obtain a1 where a1: "grows c y a1" "a1 = [] \<or> a1 = [?t]"
      by auto
    then have p1: "filter is_primary_type a1 = []" by auto
    show ?thesis
    proof (cases r)
      case (Inl e)
      with y False have "snd (insert_types env rid (ty # rest) c) = y"
        by (simp add: and_then_def)
      with a1(1) p1 show ?thesis by auto
    next
      case (Inr u)
      with y False have s: "snd (insert_types env rid (ty # rest) c) = snd (insert_types env rid rest y)"
        by (simp add: and_then_def)
      from Cons.IH [of y] obtain a2 where a2: "grows y (snd (insert_types env rid rest y)) a2"
        "filter is_primary_type a2 = []" by blast
      from grows_trans [OF a1(1) a2(1)] p1 a2(2) s show ?thesis by auto
    qed
  qed
qed

lemma insert_restaurant_types_grows:
  "\<exists>added. grows c (snd (insert_restaurant_types env d rid c)) added
      \<and> length (filter is_primary_type added) \<le> 1"
proof -
  let ?m = "insert_types env rid (get_or (types d) [])"
  obtain r y where y: "?m c = (r, y)" by (cases "?m c")
  from insert_types_grows [of c env rid "get_or (types d) []"] y
  obtain a1 where a1: "grows c y a1" "filter is_primary_type a1 = []" by auto
  show ?thesis
  proof (cases r)
    case (Inl e)
    with y have "snd (insert_restaurant_types env d rid c) = y"
      by (simp add: insert_restaurant_types_def and_then_def)
    with a1 show ?thesis by auto
  next
    case (Inr u)
    show ?thesis
    proof (cases "\<exists>pt. get_text (primaryTypeDisplayName d) = Some pt \<and> pt \<noteq> []")
      case False
      with y Inr have "snd (insert_restaurant_types env d rid c) = y"
        by (auto simp: insert_restaurant_types_def and_then_def split: option.splits)
      with a1 show ?thesis by auto
    next
      case True
      then obtain pt where pt: "get_text (primaryTypeDisplayName d) = Some pt" "pt \<noteq> []" by blast
      let ?t = "\<lparr>type_restaurant_id = rid, restaurant_type = pt, is_primary_type = True\<rparr>"
      from y Inr pt have s: "snd (insert_restaurant_types env d rid c) = snd (insert_type env ?t y)"
        by (simp add: insert_restaurant_types_def and_then_def)
      from insert_type_grows [of y env ?t] obtain a2 where a2: "grows y (snd (insert_type env ?t y)) a2"
        "a2 = [] \<or> a2 = [?t]" by blast
      from a2(2) have "length (filter is_primary_type a2) \<le> 1" by auto
      with grows_trans [OF a1(1) a2(1)] a1(2) s show ?thesis by auto
    qed
  qed
qed

lemma types_then_commit:
  "tail_stored c (snd (and_then (insert_restaurant_types env d rid) (\<lambda>_. commit env) c))"
proof -
  obtain r y where y: "insert_restaurant_types env d rid c = (r, y)"
    by (cases "insert_restaurant_types env d rid c")
  from insert_restaurant_types_grows [of c env d rid] y
  obtain added where a: "grows c y added" "length (filter is_primary_type added) \<le> 1" by auto
  from a(1) have gy: "restaurant_types (working y) = restaurant_types (working c) @ added"
    "restaurant_types (committed y) = restaurant_types (committed c)"
    "distinct (map type_key (restaurant_types (working c)))
       \<longrightarrow> distinct (map type_key (restaurant_types (working y)))"
    unfolding grows_def by blast+
  show ?thesis
  proof (cases r)
    case (Inl e)
    with y have "snd (and_then (insert_restaurant_types env d rid) (\<lambda>_. commit env) c) = y"
      by (simp add: and_then_def)
    with gy a(2) show ?thesis unfolding tail_stored_def by auto
  next
    case (Inr u)
    with y have s: "snd (and_then (insert_restaurant_types env d rid) (\<lambda>_. commit env) c)
        = snd (commit env y)"
      by (simp add: and_then_def)
    have "restaurant_types (working (snd (commit env y))) = restaurant_types (working y)"
      "restaurant_types (committed (snd (commit env y))) = restaurant_types (committed y)
       \<or> restaurant_types (committed (snd (commit env y))) = restaurant_types (working y)"
      by (simp_all add: commit_def)
    with gy a(2) show ?thesis unfolding tail_stored_def s by auto
  qed
qed

lemma same_types_stored: "same_types c y \<Longrightarrow> stored c y"
  unfolding same_types_def stored_def by (intro exI [of _ "[]"]) auto

lemma same_types_tail_stored: "same_types c y \<Longrightarrow> tail_stored y z \<Longrightarrow> stored c z"
  unfolding same_types_def stored_def tail_stored_def by auto

lemma same_types_then_stored: "same_types c y \<Longrightarrow> stored y z \<Longrightarrow> stored c z"
  unfolding same_types_def stored_def by auto

lemma store_restaurant_stored: "stored c (snd (store_restaurant env n gid d c))"
proof -
  have refl: "stored c c" by (rule same_types_stored) (rule same_types_refl)
  have s3: "stored c (snd (and_then (insert_opening_hours env d rid)
               (\<lambda>_. and_then (insert_restaurant_types env d rid) (\<lambda>_. commit env)) c))" for c rid
    by (rule and_then_rel [where ?R1.0 = same_types and ?R2.0 = tail_stored])
       (auto intro: insert_opening_hours_same_types types_then_commit same_types_stored
          same_types_tail_stored)
  have s2: "stored c (snd (and_then (add_quota_counter env None)
               (\<lambda>_. and_then (insert_opening_hours env d rid)
                 (\<lambda>_. and_then (insert_restaurant_types env d rid) (\<lambda>_. commit env))) c))" for c rid
    by (rule and_then_rel [where ?R1.0 = same_types and ?R2.0 = stored])
       (auto intro: add_quota_counter_same_types s3 same_types_stored same_types_then_stored)
  have s1: "stored c (snd (and_then (insert_restaurant env gid n d sp)
               (\<lambda>rid. and_then (add_quota_counter env None)
                 (\<lambda>_. and_then (insert_opening_hours env d rid)
                   (\<lambda>_. and_then (insert_restaurant_types env d rid) (\<lambda>_. commit env)))) c))" for sp
    by (rule and_then_rel [where ?R1.0 = same_types and ?R2.0 = stored])
       (auto intro: insert_restaurant_same_types s2 same_types_stored same_types_then_stored)
  show ?thesis
    by (simp add: store_restaurant_def refl s1 split: option.splits sum.splits)
qed

lemma store_restaurant_Inr:
  assumes "store_restaurant env n gid d c = (Inr u, c')"
  shows "working c' = committed c'"
proof -
  from assms obtain sp where
    "and_then (insert_restaurant env gid n d sp)
       (\<lambda>rid. and_then (add_quota_counter env None)
         (\<lambda>_. and_then (insert_opening_hours env d rid)
           (\<lambda>_. and_then (insert_restaurant_types env d rid) (\<lambda>_. commit env)))) c = (Inr u, c')"
    by (auto simp: store_restaurant_def split: option.splits sum.splits if_splits)
  then obtain rid c1 where
    "and_then (add_quota_counter env None)
         (\<lambda>_. and_then (insert_opening_hours env d rid)
           (\<lambda>_. and_then (insert_restaurant_types env d rid) (\<lambda>_. commit env))) c1 = (Inr u, c')"
    by (blast dest: and_then_Inr)
  then obtain c2 where
    "and_then (insert_opening_hours env d rid)
           (\<lambda>_. and_then (insert_restaurant_types env d rid) (\<lambda>_. commit env)) c2 = (Inr u, c')"
    by (blast dest: and_then_Inr)
  then obtain c3 where
    "and_then (insert_restaurant_types env d rid) (\<lambda>_. commit env) c3 = (Inr u, c')"
    by (blast dest: and_then_Inr)
  then obtain c4 where "commit env c4 = (Inr u, c')"
    by (blast dest: and_then_Inr)
  then show ?thesis by (rule commit_Inr)
qed

text \<open>One call of \<open>process_and_store\<close> from a connection with no open transaction.\<close>

lemma process_and_store_types:
  assumes clean: "working c = committed c"
    and uniq: "distinct (map type_key (restaurant_types (committed c)))"
  shows "working (snd (process_and_store env n c)) = committed (snd (process_and_store env n c))
       \<and> distinct (map type_key (restaurant_types (committed (snd (process_and_store env n c)))))
       \<and> (\<exists>added. restaurant_types (committed (snd (process_and_store env n c)))
                      = restaurant_types (committed c) @ added
                  \<and> length (filter is_primary_type added) \<le> 1)"
proof -
  have same: "?thesis" if "snd (process_and_store env n c) = c"
    using that clean uniq by simp
  show ?thesis
  proof (cases "\<exists>gid d. get_place_details (client env) n = Inr (Some gid, Some d)
                  \<and> gid \<noteq> [] \<and> d \<noteq> empty_details")
    case False
    then have "snd (process_and_store env n c) = c"
      by (auto simp: process_and_store_def split: sum.splits option.splits prod.splits)
    then show ?thesis by (rule same)
  next
    case True
    then obtain gid d where f: "get_place_details (client env) n = Inr (Some gid, Some d)"
      "gid \<noteq> []" "d \<noteq> empty_details" by blast
    obtain r y where y: "store_restaurant env n gid d c = (r, y)"
      by (cases "store_restaurant env n gid d c")
    from store_restaurant_stored [of c env n gid d] y have "stored c y" by simp
    then obtain added where a:
      "restaurant_types (working y) = restaurant_types (working c) @ added"
      "length (filter is_primary_type added) \<le> 1"
      "distinct (map type_key (restaurant_types (working c)))
         \<longrightarrow> distinct (map type_key (restaurant_types (working y)))"
      "restaurant_types (committed y) = restaurant_types (committed c)
       \<or> restaurant_types (committed y) = restaurant_types (working c)
       \<or> restaurant_types (committed y) = restaurant_types (working y)"
      unfolding stored_def by blast
    from a(3) clean uniq have dy: "distinct (map type_key (restaurant_types (working y)))"
      by simp
    from a(4) clean a(1) have cy: "restaurant_types (committed y) = restaurant_types (committed c) @ []
       \<or> restaurant_types (committed y) = restaurant_types (committed c) @ added"
      by auto
    from a(1) clean have wy: "restaurant_types (working y) = restaurant_types (committed c) @ added"
      by simp
    from cy have dc: "distinct (map type_key (restaurant_types (committed y)))"
    proof
      assume "restaurant_types (committed y) = restaurant_types (committed c) @ []"
      with uniq show ?thesis by simp
    next
      assume "restaurant_types (committed y) = restaurant_types (committed c) @ added"
      with wy dy show ?thesis by simp
    qed
    from cy a(2) have ex: "\<exists>added. restaurant_types (committed y) = restaurant_types (committed c) @ added
                  \<and> length (filter is_primary_type added) \<le> 1"
      by (metis filter.simps(1) list.size(3) zero_le)
    show ?thesis
    proof (cases r)
      case (Inl e)
      with f y have "snd (process_and_store env n c) = rollback y"
        by (simp add: process_and_store_def)
      with dc ex show ?thesis by (simp add: rollback_def)
    next
      case (Inr u)
      with f y have s: "snd (process_and_store env n c) = y"
        by (simp add: process_and_store_def)
      from y Inr have "working y = committed y" by (simp add: store_restaurant_Inr)
      with dc ex s show ?thesis by simp
    qed
  qed
qed

lemma commits_types:
  assumes "working c = committed c"
    and "distinct (map type_key (restaurant_types (committed c)))"
  shows "distinct (map type_key (restaurant_types (committed (commits steps c))))
       \<and> (\<exists>added. restaurant_types (committed (commits steps c))
                      = restaurant_types (committed c) @ added)"
  using assms
proof (induction steps arbitrary: c)
  case Nil
  then show ?case by simp
next
  case (Cons step steps)
  obtain env n where step: "step = (env, n)" by (cases step)
  let ?c1 = "snd (process_and_store env n c)"
  from process_and_store_types [OF Cons.prems, of env n]
  have c1: "working ?c1 = committed ?c1"
    "distinct (map type_key (restaurant_types (committed ?c1)))"
    and "\<exists>added. restaurant_types (committed ?c1) = restaurant_types (committed c) @ added
                  \<and> length (filter is_primary_type added) \<le> 1"
    by blast+
  then obtain a1 where a1: "restaurant_types (committed ?c1) = restaurant_types (committed c) @ a1"
    by blast
  from Cons.IH [OF c1] obtain a2 where
    d: "distinct (map type_key (restaurant_types (committed (commits steps ?c1))))"
    and a2: "restaurant_types (committed (commits steps ?c1)) = restaurant_types (committed ?c1) @ a2"
    by blast
  from a1 a2 have "restaurant_types (committed (commits steps ?c1))
      = restaurant_types (committed c) @ (a1 @ a2)" by simp
  with d step show ?case by auto
qed

lemma once_clean: "working once = committed once"
  by (simp add: once_def run_defs)

lemma once_types:
  "restaurant_types (committed once) =
     [\<lparr>type_restaurant_id = 1, restaurant_type = ''bar'', is_primary_type = False\<rparr>,
      \<lparr>type_restaurant_id = 1, restaurant_type = ''restaurant'', is_primary_type = False\<rparr>,
      \<lparr>type_restaurant_id = 1, restaurant_type = ''Bar'', is_primary_type = True\<rparr>]"
  by (simp add: once_def run_defs)

text \<open>
  Claim C7 as the code has it. From a connection with no open transaction whose stored
  tags are unique on (restaurant, tag string): after any sequence of commits the stored
  tags are still unique on that key and the tags stored before are all still there,
  unchanged and in place (a conflicting insert is ignored, nothing is overwritten or
  removed); and one commit adds, after the stored tags, new tags of which at most one is
  flagged primary.
\<close>

theorem type_tags_unique_and_kept:
  assumes "working c = committed c"
    and "distinct (map type_key (restaurant_types (committed c)))"
  shows "distinct (map type_key (restaurant_types (committed (commits steps c))))
       \<and> (\<exists>added. restaurant_types (committed (commits steps c))
                      = restaurant_types (committed c) @ added)
       \<and> (\<exists>added. restaurant_types (committed (snd (process_and_store env n c)))
                      = restaurant_types (committed c) @ added
                  \<and> length (filter is_primary_type added) \<le> 1)"
  using commits_types [OF assms, of steps] process_and_store_types [OF assms, of env n]
  by blast

text \<open>
  Witness for C7: the store after the scenario's commit, and one more commit of the same
  restaurant with another primary type.
\<close>

theorem type_tags_unique_and_kept_witness:
  "working once = committed once
   \<and> distinct (map type_key (restaurant_types (committed once)))
   \<and> distinct (map type_key (restaurant_types (committed
         (commits [(accepting (one_place pizzaria_details) 9, ''Bar X'')] once))))
   \<and> map restaurant_type (restaurant_types (committed
         (commits [(accepting (one_place pizzaria_details) 9, ''Bar X'')] once)))
       = [''bar'', ''restaurant'', ''Bar'', ''Pizzaria'']"
proof -
  have u: "distinct (map type_key (restaurant_types (committed once)))"
    by (simp add: once_types type_key_def)
  note t = type_tags_unique_and_kept [OF once_clean u,
      of "[(accepting (one_place pizzaria_details) 9, ''Bar X'')]"
         "accepting (one_place pizzaria_details) 9" "''Bar X''"]
  have v: "map restaurant_type (restaurant_types (committed
         (commits [(accepting (one_place pizzaria_details) 9, ''Bar X'')] once)))
       = [''bar'', ''restaurant'', ''Bar'', ''Pizzaria'']"
    by (simp add: once_def pizzaria_details_def run_defs)
  from once_clean u t v show ?thesis by blast
qed

text \<open>
  Claim C7 as stated fails, in two runs of \<open>main\<close>. The first stores \<open>Bar X\<close>. In the
  second the list has one more name, for which the lookup finds the same place, its
  primary type now another. Both tags flagged primary are stored for restaurant 1.
\<close>

theorem two_primary_tags:
  "map (\<lambda>t. (type_restaurant_id t, restaurant_type t, is_primary_type t))
     (filter is_primary_type (restaurant_types (committed
        (snd (main (accepting (one_place pizzaria_details) 9) [''Bar X'', ''Pizzaria X'']
               (snd (main (accepting (one_place bar_details) 5) [''Bar X''] fresh)))))))
     = [(1, ''Bar'', True), (1, ''Pizzaria'', True)]"
  by (simp add: pizzaria_details_def run_defs main_def get_restaurants_to_insert_def
        placeholders_def slice_to_def slice_bound_def)

section \<open>Reconciliation and the loop over the names\<close>













end
